theory Spec2Isabelle
  imports Main "HOL-Library.Word"
begin

unbundle bit_operations_syntax

section \<open>The IPC command dispatcher of pcsx2/IPC.cpp\<close>

text \<open>
  The development embeds \<^verbatim>\<open>SocketIPC::ParseCommand\<close>, its two helpers
  \<^verbatim>\<open>MakeOkIPC\<close> and \<^verbatim>\<open>MakeFailIPC\<close>, and the part of
  \<^verbatim>\<open>SocketIPC::ExecuteTaskInThread\<close> that serves one accepted connection.

  A \<^verbatim>\<open>char*\<close> is modelled as the function from byte offsets to the bytes found at
  that address. Offsets beyond the allocation are part of the function: the C++ code reads
  whatever lies there, and the model records every offset of the request buffer it reads, so
  that a read outside the allocation is visible instead of being hidden.
\<close>

type_synonym u8 = "8 word"
type_synonym u16 = "16 word"
type_synonym u32 = "32 word"
type_synonym u64 = "64 word"
type_synonym buffer = "nat \<Rightarrow> u8"

subsection \<open>Declarations of IPC.h\<close>

text \<open>
  The header IPC.h is not part of the sources at hand. Its enumerators and size macros are
  parameters of the model: the opcodes of \<^verbatim>\<open>enum IPCCommand\<close>, the two status
  codes, and the capacities of the request and of the reply buffer. The enumerators are
  taken to be bytes, so that the cast \<^verbatim>\<open>(IPCCommand)buf[buf_cnt]\<close> compares the
  request byte with the opcode.
\<close>

record ipc_h =
  MsgRead8 :: u8
  MsgRead16 :: u8
  MsgRead32 :: u8
  MsgRead64 :: u8
  MsgWrite8 :: u8
  MsgWrite16 :: u8
  MsgWrite32 :: u8
  MsgWrite64 :: u8
  MsgMultiCommand :: u8
  IPC_OK :: u8
  IPC_FAIL :: u8
  MAX_IPC_SIZE :: nat
  MAX_IPC_RETURN_SIZE :: nat

text \<open>
  The case labels of a C++ \<^verbatim>\<open>switch\<close> are pairwise different, and the batch tag
  is no opcode of a sub-command.
\<close>

definition opcodes :: "ipc_h \<Rightarrow> u8 list" where
  "opcodes c = [MsgRead8 c, MsgRead16 c, MsgRead32 c, MsgRead64 c,
                MsgWrite8 c, MsgWrite16 c, MsgWrite32 c, MsgWrite64 c]"

definition distinct_opcodes :: "ipc_h \<Rightarrow> bool" where
  "distinct_opcodes c = distinct (MsgMultiCommand c # opcodes c)"

subsection \<open>Wire codec\<close>

text \<open>
  Little-endian bytes of a word and back. \<open>le_bytes n w\<close> are the \<open>n\<close> low bytes of
  \<open>w\<close>, least significant first.
\<close>

fun le_bytes :: "nat \<Rightarrow> 'a::len word \<Rightarrow> u8 list" where
  "le_bytes 0 w = []"
| "le_bytes (Suc n) w = ucast w # le_bytes n (drop_bit 8 w)"

fun le_word :: "u8 list \<Rightarrow> 'a::len word" where
  "le_word [] = 0"
| "le_word (b # bs) = ucast b OR push_bit 8 (le_word bs)"

text \<open>
  Modelled from the spec: the templates \<^verbatim>\<open>FromArray<T>\<close> and \<^verbatim>\<open>ToArray\<close> are
  defined in IPC.h, which is missing. The spec's Wire Codec decodes and encodes unsigned
  integers of 1, 2, 4 and 8 bytes in one fixed byte order at a given offset of a raw byte
  buffer, with no validation. The byte order taken here is little-endian. A pointer
  \<^verbatim>\<open>&buf[p]\<close> is the pair of the buffer and \<open>p\<close>, so
  \<^verbatim>\<open>FromArray<u32>(&buf[p], i)\<close> is \<open>FromArray_u32 buf p i\<close>.
\<close>

definition FromArray_u8 :: "buffer \<Rightarrow> nat \<Rightarrow> nat \<Rightarrow> u8" where
  "FromArray_u8 arr p i = le_word (map arr [p + i ..< p + i + 1])"

definition FromArray_u16 :: "buffer \<Rightarrow> nat \<Rightarrow> nat \<Rightarrow> u16" where
  "FromArray_u16 arr p i = le_word (map arr [p + i ..< p + i + 2])"

definition FromArray_u32 :: "buffer \<Rightarrow> nat \<Rightarrow> nat \<Rightarrow> u32" where
  "FromArray_u32 arr p i = le_word (map arr [p + i ..< p + i + 4])"

definition FromArray_u64 :: "buffer \<Rightarrow> nat \<Rightarrow> nat \<Rightarrow> u64" where
  "FromArray_u64 arr p i = le_word (map arr [p + i ..< p + i + 8])"

definition store_bytes :: "buffer \<Rightarrow> u8 list \<Rightarrow> nat \<Rightarrow> buffer" where
  "store_bytes res_array bs i =
     (\<lambda>j. if i \<le> j \<and> j < i + length bs then bs ! (j - i) else res_array j)"

definition ToArray_u8 :: "buffer \<Rightarrow> u8 \<Rightarrow> nat \<Rightarrow> buffer" where
  "ToArray_u8 res_array res i = store_bytes res_array (le_bytes 1 res) i"

definition ToArray_u16 :: "buffer \<Rightarrow> u16 \<Rightarrow> nat \<Rightarrow> buffer" where
  "ToArray_u16 res_array res i = store_bytes res_array (le_bytes 2 res) i"

definition ToArray_u32 :: "buffer \<Rightarrow> u32 \<Rightarrow> nat \<Rightarrow> buffer" where
  "ToArray_u32 res_array res i = store_bytes res_array (le_bytes 4 res) i"

definition ToArray_u64 :: "buffer \<Rightarrow> u64 \<Rightarrow> nat \<Rightarrow> buffer" where
  "ToArray_u64 res_array res i = store_bytes res_array (le_bytes 8 res) i"

text \<open>
  Modelled from the spec: \<^verbatim>\<open>SafetyChecks\<close> is defined in IPC.h, which is missing.
  The spec's formula: given the request cursor, the request bytes the opcode needs, the
  reply cursor and the reply bytes the opcode needs, the check fails if request cursor plus
  needed request bytes exceeds the request capacity, or reply cursor plus needed reply bytes
  exceeds the reply capacity. The function returns whether the check passed.
\<close>

definition SafetyChecks :: "ipc_h \<Rightarrow> nat \<Rightarrow> nat \<Rightarrow> nat \<Rightarrow> nat \<Rightarrow> bool" where
  "SafetyChecks c command_len command_size reply_len reply_size =
     (\<not> (command_len + command_size > MAX_IPC_SIZE c
         \<or> reply_len + reply_size > MAX_IPC_RETURN_SIZE c))"

subsection \<open>The memory access facade\<close>

text \<open>
  \<^verbatim>\<open>memRead8\<close> .. \<^verbatim>\<open>memWrite64\<close> and \<^verbatim>\<open>m_vm->HasActiveMachine()\<close>
  belong to the emulator core. They are a parameter of the model, over a type \<open>'m\<close> of
  machine states; a read returns its value and the machine state after it.
\<close>

record 'm vm_facade =
  HasActiveMachine :: "'m \<Rightarrow> bool"
  memRead8 :: "u32 \<Rightarrow> 'm \<Rightarrow> u8 \<times> 'm"
  memRead16 :: "u32 \<Rightarrow> 'm \<Rightarrow> u16 \<times> 'm"
  memRead32 :: "u32 \<Rightarrow> 'm \<Rightarrow> u32 \<times> 'm"
  memRead64 :: "u32 \<Rightarrow> 'm \<Rightarrow> u64 \<times> 'm"
  memWrite8 :: "u32 \<Rightarrow> u8 \<Rightarrow> 'm \<Rightarrow> 'm"
  memWrite16 :: "u32 \<Rightarrow> u16 \<Rightarrow> 'm \<Rightarrow> 'm"
  memWrite32 :: "u32 \<Rightarrow> u32 \<Rightarrow> 'm \<Rightarrow> 'm"
  memWrite64 :: "u32 \<Rightarrow> u64 \<Rightarrow> 'm \<Rightarrow> 'm"

text \<open>The calls made to the facade, in order; a read is logged with the value it returned.\<close>

datatype mem_op =
    CallRead8 u32 u8
  | CallRead16 u32 u16
  | CallRead32 u32 u32
  | CallRead64 u32 u64
  | CallWrite8 u32 u8
  | CallWrite16 u32 u16
  | CallWrite32 u32 u32
  | CallWrite64 u32 u64

subsection \<open>ParseCommand\<close>

text \<open>
  The state of the batch loop: the reply buffer, the local cursors \<^verbatim>\<open>ret_cnt\<close> and
  \<^verbatim>\<open>buf_cnt\<close>, the machine, and two logs kept for the proofs: the facade calls made
  and the offsets of the request buffer read so far.

  The cursors are \<^verbatim>\<open>u32\<close> in the source and \<open>nat\<close> here. The loop runs at most
  65535 times and a sub-command advances a cursor by at most 13, so no cursor comes near
  \<open>2 ^ 32\<close> (lemma \<open>cursors_no_wrap\<close> below), and the cast \<^verbatim>\<open>(int)ret_cnt\<close>
  of the returned size keeps the value. The loop counter \<^verbatim>\<open>i\<close> is \<^verbatim>\<open>u16\<close>
  and stays below \<^verbatim>\<open>batch\<close>, which is at most 65535, so \<^verbatim>\<open>i++\<close> does not wrap.
\<close>

record 'm dispatch =
  ret_buffer :: buffer
  ret_cnt :: nat
  buf_cnt :: nat
  vm :: 'm
  calls :: "mem_op list"
  fetched :: "nat list"

datatype 'm flow = Error "'m dispatch" | Next "'m dispatch"

definition MakeOkIPC :: "ipc_h \<Rightarrow> buffer \<Rightarrow> buffer" where
  "MakeOkIPC c ret = ret(0 := IPC_OK c)"

definition MakeFailIPC :: "ipc_h \<Rightarrow> buffer \<Rightarrow> buffer" where
  "MakeFailIPC c ret = ret(0 := IPC_FAIL c)"

text \<open>
  Every iteration reads the four address bytes after the cursor and then the opcode byte at
  the cursor; \<open>fetch_head\<close> logs these offsets.
\<close>

definition fetch_head :: "'m dispatch \<Rightarrow> 'm dispatch" where
  "fetch_head st =
     st\<lparr>fetched := fetched st @ [buf_cnt st + 1 ..< buf_cnt st + 5] @ [buf_cnt st]\<rparr>"

text \<open>
  One iteration of the \<^verbatim>\<open>for\<close> loop. The address is read first, then the switch looks
  at the opcode byte; \<^verbatim>\<open>goto error\<close> and the \<^verbatim>\<open>default\<close> label are \<open>Error\<close>.
\<close>

definition ParseCommand_body :: "ipc_h \<Rightarrow> 'm vm_facade \<Rightarrow> buffer \<Rightarrow> 'm dispatch \<Rightarrow> 'm flow" where
  "ParseCommand_body c f buf st0 =
    (let a = FromArray_u32 buf (buf_cnt st0) 1;
         st = fetch_head st0;
         opc = buf (buf_cnt st)
     in
     if opc = MsgRead8 c then
       (if \<not> SafetyChecks c (buf_cnt st) 5 (ret_cnt st) 1 then Error st
        else let (res, m) = memRead8 f a (vm st) in
          Next (st\<lparr>ret_buffer := ToArray_u8 (ret_buffer st) res (ret_cnt st),
                    ret_cnt := ret_cnt st + 1, buf_cnt := buf_cnt st + 5,
                    vm := m, calls := calls st @ [CallRead8 a res]\<rparr>))
     else if opc = MsgRead16 c then
       (if \<not> SafetyChecks c (buf_cnt st) 5 (ret_cnt st) 2 then Error st
        else let (res, m) = memRead16 f a (vm st) in
          Next (st\<lparr>ret_buffer := ToArray_u16 (ret_buffer st) res (ret_cnt st),
                    ret_cnt := ret_cnt st + 2, buf_cnt := buf_cnt st + 5,
                    vm := m, calls := calls st @ [CallRead16 a res]\<rparr>))
     else if opc = MsgRead32 c then
       (if \<not> SafetyChecks c (buf_cnt st) 5 (ret_cnt st) 4 then Error st
        else let (res, m) = memRead32 f a (vm st) in
          Next (st\<lparr>ret_buffer := ToArray_u32 (ret_buffer st) res (ret_cnt st),
                    ret_cnt := ret_cnt st + 4, buf_cnt := buf_cnt st + 5,
                    vm := m, calls := calls st @ [CallRead32 a res]\<rparr>))
     else if opc = MsgRead64 c then
       (if \<not> SafetyChecks c (buf_cnt st) 5 (ret_cnt st) 8 then Error st
        else let (res, m) = memRead64 f a (vm st) in
          Next (st\<lparr>ret_buffer := ToArray_u64 (ret_buffer st) res (ret_cnt st),
                    ret_cnt := ret_cnt st + 8, buf_cnt := buf_cnt st + 5,
                    vm := m, calls := calls st @ [CallRead64 a res]\<rparr>))
     else if opc = MsgWrite8 c then
       (if \<not> SafetyChecks c (buf_cnt st) 6 (ret_cnt st) 0 then Error st
        else let v = FromArray_u8 buf (buf_cnt st) 5 in
          Next (st\<lparr>buf_cnt := buf_cnt st + 6, vm := memWrite8 f a v (vm st),
                    calls := calls st @ [CallWrite8 a v],
                    fetched := fetched st @ [buf_cnt st + 5 ..< buf_cnt st + 6]\<rparr>))
     else if opc = MsgWrite16 c then
       (if \<not> SafetyChecks c (buf_cnt st) 7 (ret_cnt st) 0 then Error st
        else let v = FromArray_u16 buf (buf_cnt st) 5 in
          Next (st\<lparr>buf_cnt := buf_cnt st + 7, vm := memWrite16 f a v (vm st),
                    calls := calls st @ [CallWrite16 a v],
                    fetched := fetched st @ [buf_cnt st + 5 ..< buf_cnt st + 7]\<rparr>))
     else if opc = MsgWrite32 c then
       (if \<not> SafetyChecks c (buf_cnt st) 9 (ret_cnt st) 0 then Error st
        else let v = FromArray_u32 buf (buf_cnt st) 5 in
          Next (st\<lparr>buf_cnt := buf_cnt st + 9, vm := memWrite32 f a v (vm st),
                    calls := calls st @ [CallWrite32 a v],
                    fetched := fetched st @ [buf_cnt st + 5 ..< buf_cnt st + 9]\<rparr>))
     else if opc = MsgWrite64 c then
       (if \<not> SafetyChecks c (buf_cnt st) 13 (ret_cnt st) 0 then Error st
        else let v = FromArray_u64 buf (buf_cnt st) 5 in
          Next (st\<lparr>buf_cnt := buf_cnt st + 13, vm := memWrite64 f a v (vm st),
                    calls := calls st @ [CallWrite64 a v],
                    fetched := fetched st @ [buf_cnt st + 5 ..< buf_cnt st + 13]\<rparr>))
     else Error st)"

text \<open>
  \<^verbatim>\<open>for (u16 i = 0; i < batch; i++)\<close>: the loop from counter \<open>i\<close> on. It stops
  with \<open>Error\<close> at the first iteration that jumps to the error label.
\<close>

function ParseCommand_loop ::
  "ipc_h \<Rightarrow> 'm vm_facade \<Rightarrow> buffer \<Rightarrow> nat \<Rightarrow> nat \<Rightarrow> 'm dispatch \<Rightarrow> 'm flow" where
  "ParseCommand_loop c f buf batch i st =
     (if i < batch then
        (case ParseCommand_body c f buf st of
           Error e \<Rightarrow> Error e
         | Next st' \<Rightarrow> ParseCommand_loop c f buf batch (i + 1) st')
      else Next st)"
  by pat_completeness auto
termination
  by (relation "measure (\<lambda>(c, f, buf, batch, i, st). batch - i)") auto

declare ParseCommand_loop.simps [simp del]

text \<open>
  The locals before the loop: \<^verbatim>\<open>batch\<close>, and the state with \<^verbatim>\<open>ret_cnt = 1\<close>
  and \<^verbatim>\<open>buf_cnt\<close> 0 or, after a batch header, 3.
\<close>

definition ParseCommand_init ::
  "ipc_h \<Rightarrow> buffer \<Rightarrow> buffer \<Rightarrow> 'm \<Rightarrow> nat \<times> 'm dispatch" where
  "ParseCommand_init c buf ret m =
     (if buf 0 = MsgMultiCommand c then
        (unat (FromArray_u16 buf 0 1),
         \<lparr>ret_buffer = ret, ret_cnt = 1, buf_cnt = 3, vm = m, calls = [],
          fetched = [0] @ [1 ..< 3]\<rparr>)
      else
        (1, \<lparr>ret_buffer = ret, ret_cnt = 1, buf_cnt = 0, vm = m, calls = [], fetched = [0]\<rparr>))"

text \<open>
  What a call of ParseCommand leaves behind: the returned \<^verbatim>\<open>IPCBuffer{size, buffer}\<close>,
  the machine after the call, and the two logs.
\<close>

record 'm outcome =
  size_ipc :: int
  buffer_ipc :: buffer
  vm_after :: 'm
  vm_calls :: "mem_op list"
  request_reads :: "nat list"

definition ParseCommand ::
  "ipc_h \<Rightarrow> 'm vm_facade \<Rightarrow> buffer \<Rightarrow> buffer \<Rightarrow> 'm \<Rightarrow> 'm outcome" where
  "ParseCommand c f buf ret m =
     (if \<not> HasActiveMachine f m then
        \<lparr>size_ipc = 1, buffer_ipc = MakeFailIPC c ret, vm_after = m, vm_calls = [],
         request_reads = []\<rparr>
      else
        (let (batch, st0) = ParseCommand_init c buf ret m in
         case ParseCommand_loop c f buf batch 0 st0 of
           Error st \<Rightarrow>
             \<lparr>size_ipc = 1, buffer_ipc = MakeFailIPC c (ret_buffer st), vm_after = vm st,
              vm_calls = calls st, request_reads = fetched st\<rparr>
         | Next st \<Rightarrow>
             \<lparr>size_ipc = int (ret_cnt st), buffer_ipc = MakeOkIPC c (ret_buffer st),
              vm_after = vm st, vm_calls = calls st, request_reads = fetched st\<rparr>))"

subsection \<open>One accepted connection\<close>

text \<open>
  The \<^verbatim>\<open>else\<close> branch of \<^verbatim>\<open>ExecuteTaskInThread\<close>: one read into the request
  buffer, which is allocated once and keeps the bytes of earlier connections; one call of
  ParseCommand, which is not told how many bytes were received; one write of the first
  \<^verbatim>\<open>res.size\<close> bytes of the returned buffer. A failed read is \<open>None\<close>.
\<close>

record 'm server =
  m_ipc_buffer :: buffer
  m_ret_buffer :: buffer
  m_vm :: 'm

definition read_portable :: "ipc_h \<Rightarrow> u8 list \<Rightarrow> buffer \<Rightarrow> buffer" where
  "read_portable c received b =
     (\<lambda>i. if i < min (length received) (MAX_IPC_SIZE c) then received ! i else b i)"

definition write_portable :: "buffer \<Rightarrow> int \<Rightarrow> u8 list" where
  "write_portable b n = map b [0 ..< nat n]"

definition ExecuteTask_connection ::
  "ipc_h \<Rightarrow> 'm vm_facade \<Rightarrow> u8 list option \<Rightarrow> 'm server \<Rightarrow> u8 list option \<times> 'm server" where
  "ExecuteTask_connection c f incoming srv =
     (case incoming of
        None \<Rightarrow> (None, srv)
      | Some received \<Rightarrow>
          (let buf = read_portable c received (m_ipc_buffer srv);
               res = ParseCommand c f buf (m_ret_buffer srv) (m_vm srv)
           in (Some (write_portable (buffer_ipc res) (size_ipc res)),
               \<lparr>m_ipc_buffer = buf, m_ret_buffer = buffer_ipc res, m_vm = vm_after res\<rparr>)))"


subsection \<open>The sub-commands as the specification words them\<close>

text \<open>
  The specification describes the eight cases of the switch as two operations with a width
  \<open>N\<close> in 8, 16, 32, 64. \<open>Read_N\<close> and \<open>Write_N\<close> follow its words: a Read-N needs 5
  request bytes and N/8 reply bytes, reads N bits at the address through the facade, encodes
  them at the reply cursor, advances the reply cursor by N/8 and the request cursor by 5; a
  Write-N needs 5 + N/8 request bytes and no reply byte, decodes the value at request cursor
  + 5, writes it through the facade and advances the request cursor by 5 + N/8. "Needs" is
  the bounds-check formula of the specification. Lemma \<open>body_decode\<close> compares them with
  the switch of the source.
\<close>

datatype width = W8 | W16 | W32 | W64

fun nbytes :: "width \<Rightarrow> nat" where
  "nbytes W8 = 1"
| "nbytes W16 = 2"
| "nbytes W32 = 4"
| "nbytes W64 = 8"

fun read_op :: "ipc_h \<Rightarrow> width \<Rightarrow> u8" where
  "read_op c W8 = MsgRead8 c"
| "read_op c W16 = MsgRead16 c"
| "read_op c W32 = MsgRead32 c"
| "read_op c W64 = MsgRead64 c"

fun write_op :: "ipc_h \<Rightarrow> width \<Rightarrow> u8" where
  "write_op c W8 = MsgWrite8 c"
| "write_op c W16 = MsgWrite16 c"
| "write_op c W32 = MsgWrite32 c"
| "write_op c W64 = MsgWrite64 c"

text \<open>
  The facade at width \<open>w\<close>, on little-endian bytes: the bytes read, the logged call and the
  machine after a read; the logged call and the machine after a write.
\<close>

fun facade_read :: "'m vm_facade \<Rightarrow> width \<Rightarrow> u32 \<Rightarrow> 'm \<Rightarrow> (u8 list \<times> mem_op) \<times> 'm" where
  "facade_read f W8 a m =
     (let r = memRead8 f a m in ((le_bytes 1 (fst r), CallRead8 a (fst r)), snd r))"
| "facade_read f W16 a m =
     (let r = memRead16 f a m in ((le_bytes 2 (fst r), CallRead16 a (fst r)), snd r))"
| "facade_read f W32 a m =
     (let r = memRead32 f a m in ((le_bytes 4 (fst r), CallRead32 a (fst r)), snd r))"
| "facade_read f W64 a m =
     (let r = memRead64 f a m in ((le_bytes 8 (fst r), CallRead64 a (fst r)), snd r))"

fun facade_write :: "'m vm_facade \<Rightarrow> width \<Rightarrow> u32 \<Rightarrow> u8 list \<Rightarrow> 'm \<Rightarrow> mem_op \<times> 'm" where
  "facade_write f W8 a bs m = (CallWrite8 a (le_word bs), memWrite8 f a (le_word bs) m)"
| "facade_write f W16 a bs m = (CallWrite16 a (le_word bs), memWrite16 f a (le_word bs) m)"
| "facade_write f W32 a bs m = (CallWrite32 a (le_word bs), memWrite32 f a (le_word bs) m)"
| "facade_write f W64 a bs m = (CallWrite64 a (le_word bs), memWrite64 f a (le_word bs) m)"

definition Read_N :: "ipc_h \<Rightarrow> 'm vm_facade \<Rightarrow> buffer \<Rightarrow> width \<Rightarrow> 'm dispatch \<Rightarrow> 'm flow" where
  "Read_N c f buf w st =
     (let a = le_word (map buf [buf_cnt st + 1 ..< buf_cnt st + 5]) in
      if buf_cnt st + 5 \<le> MAX_IPC_SIZE c \<and> ret_cnt st + nbytes w \<le> MAX_IPC_RETURN_SIZE c then
        (let r = facade_read f w a (vm st) in
         Next ((fetch_head st)
                 \<lparr>ret_buffer := store_bytes (ret_buffer st) (fst (fst r)) (ret_cnt st),
                  ret_cnt := ret_cnt st + nbytes w, buf_cnt := buf_cnt st + 5,
                  vm := snd r, calls := calls st @ [snd (fst r)]\<rparr>))
      else Error (fetch_head st))"

definition Write_N :: "ipc_h \<Rightarrow> 'm vm_facade \<Rightarrow> buffer \<Rightarrow> width \<Rightarrow> 'm dispatch \<Rightarrow> 'm flow" where
  "Write_N c f buf w st =
     (let a = le_word (map buf [buf_cnt st + 1 ..< buf_cnt st + 5]) in
      if buf_cnt st + (5 + nbytes w) \<le> MAX_IPC_SIZE c
         \<and> ret_cnt st + 0 \<le> MAX_IPC_RETURN_SIZE c then
        (let bs = map buf [buf_cnt st + 5 ..< buf_cnt st + 5 + nbytes w];
             r = facade_write f w a bs (vm st) in
         Next ((fetch_head st)
                 \<lparr>buf_cnt := buf_cnt st + (5 + nbytes w), vm := snd r,
                  calls := calls st @ [fst r],
                  fetched := fetched (fetch_head st)
                             @ [buf_cnt st + 5 ..< buf_cnt st + 5 + nbytes w]\<rparr>))
      else Error (fetch_head st))"

text \<open>The case labels of the switch in their order; \<open>None\<close> is the default label.\<close>

datatype cmd = RD width | WR width

definition decode :: "ipc_h \<Rightarrow> u8 \<Rightarrow> cmd option" where
  "decode c opc =
     (if opc = MsgRead8 c then Some (RD W8)
      else if opc = MsgRead16 c then Some (RD W16)
      else if opc = MsgRead32 c then Some (RD W32)
      else if opc = MsgRead64 c then Some (RD W64)
      else if opc = MsgWrite8 c then Some (WR W8)
      else if opc = MsgWrite16 c then Some (WR W16)
      else if opc = MsgWrite32 c then Some (WR W32)
      else if opc = MsgWrite64 c then Some (WR W64)
      else None)"

text \<open>
  The request bytes one sub-command occupies on the wire (opcode, address, and the value of
  a write), and the reply bytes it produces.
\<close>

fun wire_size :: "cmd \<Rightarrow> nat" where
  "wire_size (RD w) = 5"
| "wire_size (WR w) = 5 + nbytes w"

fun reply_size :: "cmd \<Rightarrow> nat" where
  "reply_size (RD w) = nbytes w"
| "reply_size (WR w) = 0"

text \<open>The reply payload a facade call contributes: the bytes of a read, nothing for a write.\<close>

fun payload :: "mem_op \<Rightarrow> u8 list" where
  "payload (CallRead8 a v) = le_bytes 1 v"
| "payload (CallRead16 a v) = le_bytes 2 v"
| "payload (CallRead32 a v) = le_bytes 4 v"
| "payload (CallRead64 a v) = le_bytes 8 v"
| "payload (CallWrite8 a v) = []"
| "payload (CallWrite16 a v) = []"
| "payload (CallWrite32 a v) = []"
| "payload (CallWrite64 a v) = []"

text \<open>
  The reply buffer behind the status byte holds the payloads of the facade calls made so
  far, in their order.
\<close>

definition reply_inv :: "'m dispatch \<Rightarrow> bool" where
  "reply_inv st \<longleftrightarrow> 1 \<le> ret_cnt st \<and>
     map (ret_buffer st) [1 ..< ret_cnt st] = concat (map payload (calls st))"

text \<open>
  The sub-commands of a request, read off its bytes as the wire format lays them out: from
  offset \<open>p\<close> on, \<open>n\<close> times an opcode byte, a 4-byte address and, for a write, the
  value bytes. The list ends early at a byte that is no opcode.
\<close>

datatype subcommand = ReadCmd width u32 | WriteCmd width u32 "u8 list"

fun subcommands :: "ipc_h \<Rightarrow> buffer \<Rightarrow> nat \<Rightarrow> nat \<Rightarrow> subcommand list" where
  "subcommands c buf 0 p = []"
| "subcommands c buf (Suc n) p =
     (case decode c (buf p) of
        None \<Rightarrow> []
      | Some (RD w) \<Rightarrow>
          ReadCmd w (le_word (map buf [p + 1 ..< p + 5])) # subcommands c buf n (p + 5)
      | Some (WR w) \<Rightarrow>
          WriteCmd w (le_word (map buf [p + 1 ..< p + 5])) (map buf [p + 5 ..< p + 5 + nbytes w])
            # subcommands c buf n (p + 5 + nbytes w))"

text \<open>
  The values of the read operations of a list of sub-commands, in its order, when the
  operations are applied to the machine one after the other; a write contributes no byte.
\<close>

fun read_values :: "'m vm_facade \<Rightarrow> subcommand list \<Rightarrow> 'm \<Rightarrow> u8 list" where
  "read_values f [] m = []"
| "read_values f (ReadCmd w a # cs) m =
     fst (fst (facade_read f w a m)) @ read_values f cs (snd (facade_read f w a m))"
| "read_values f (WriteCmd w a bs # cs) m =
     read_values f cs (snd (facade_write f w a bs m))"

text \<open>
  The sub-commands of a whole request: after a batch header, tag and 2-byte count, as many
  as the count says, from offset 3 on; without a header, one, from offset 0 on.
\<close>

definition request_subcommands :: "ipc_h \<Rightarrow> buffer \<Rightarrow> subcommand list" where
  "request_subcommands c buf =
     (if buf 0 = MsgMultiCommand c
      then subcommands c buf (unat (FromArray_u16 buf 0 1)) 3
      else subcommands c buf 1 0)"

subsection \<open>A concrete configuration and a concrete machine\<close>

text \<open>
  For evaluating the dispatcher on concrete requests: one assignment of the parameters
  (opcodes 0 to 7 in the order of the switch, batch tag and failure status \<open>0xFF\<close>,
  success status 0, both capacities 4096 bytes), and a byte-addressed little-endian
  memory behind the facade whose reads have no side effect.
\<close>

definition cfg :: ipc_h where
  "cfg = \<lparr>MsgRead8 = 0, MsgRead16 = 1, MsgRead32 = 2, MsgRead64 = 3,
          MsgWrite8 = 4, MsgWrite16 = 5, MsgWrite32 = 6, MsgWrite64 = 7,
          MsgMultiCommand = 0xFF, IPC_OK = 0, IPC_FAIL = 0xFF,
          MAX_IPC_SIZE = 4096, MAX_IPC_RETURN_SIZE = 4096\<rparr>"

record ram_vm =
  running :: bool
  ram :: "u32 \<Rightarrow> u8"

definition ram_load :: "ram_vm \<Rightarrow> u32 \<Rightarrow> nat \<Rightarrow> u8 list" where
  "ram_load m a n = map (\<lambda>i. ram m (a + of_nat i)) [0 ..< n]"

definition ram_store :: "ram_vm \<Rightarrow> u32 \<Rightarrow> u8 list \<Rightarrow> ram_vm" where
  "ram_store m a bs =
     m\<lparr>ram := (\<lambda>x. if unat (x - a) < length bs then bs ! unat (x - a) else ram m x)\<rparr>"

definition ram_facade :: "ram_vm vm_facade" where
  "ram_facade =
     \<lparr>HasActiveMachine = running,
      memRead8 = (\<lambda>a m. (le_word (ram_load m a 1), m)),
      memRead16 = (\<lambda>a m. (le_word (ram_load m a 2), m)),
      memRead32 = (\<lambda>a m. (le_word (ram_load m a 4), m)),
      memRead64 = (\<lambda>a m. (le_word (ram_load m a 8), m)),
      memWrite8 = (\<lambda>a v m. ram_store m a (le_bytes 1 v)),
      memWrite16 = (\<lambda>a v m. ram_store m a (le_bytes 2 v)),
      memWrite32 = (\<lambda>a v m. ram_store m a (le_bytes 4 v)),
      memWrite64 = (\<lambda>a v m. ram_store m a (le_bytes 8 v))\<rparr>"

definition request :: "u8 list \<Rightarrow> buffer" where
  "request bs = (\<lambda>i. if i < length bs then bs ! i else 0)"


text \<open>Two machines: one running, one not; the byte at an address is the address's low byte.\<close>

definition machine0 :: ram_vm where
  "machine0 = \<lparr>running = True, ram = (\<lambda>a. ucast a)\<rparr>"

definition halted :: ram_vm where
  "halted = \<lparr>running = False, ram = (\<lambda>a. ucast a)\<rparr>"

text \<open>The cursors an iteration or a run ends with, if it succeeds.\<close>

fun cursors :: "'m flow \<Rightarrow> (nat \<times> nat) option" where
  "cursors (Next st) = Some (buf_cnt st, ret_cnt st)"
| "cursors (Error st) = None"

text \<open>A loop state at the start of a request without batch header.\<close>

definition start :: "ram_vm dispatch" where
  "start = \<lparr>ret_buffer = \<lambda>_. 0, ret_cnt = 1, buf_cnt = 0, vm = machine0, calls = [],
            fetched = [0]\<rparr>"

text \<open>
  A request of 4096 bytes: a batch header that declares 819 sub-commands, followed by zero
  bytes. In the configuration \<open>cfg\<close> these are 818 complete Read8 sub-commands for address
  0 at offsets 3 to 4092, and the first three bytes of one more.
\<close>

definition flood :: "u8 list" where
  "flood = [0xFF, 0x33, 0x03] @ replicate 4093 0"

text \<open>The server before the first connection; its request buffer holds no opcode.\<close>

definition server0 :: "ram_vm server" where
  "server0 = \<lparr>m_ipc_buffer = \<lambda>_. 0xFE, m_ret_buffer = \<lambda>_. 0, m_vm = machine0\<rparr>"

text \<open>
  A value of one of the four widths, its width and its bytes on the wire; the request bytes
  of a write and of a read sub-command.
\<close>

datatype val = V8 u8 | V16 u16 | V32 u32 | V64 u64

fun width_of :: "val \<Rightarrow> width" where
  "width_of (V8 v) = W8"
| "width_of (V16 v) = W16"
| "width_of (V32 v) = W32"
| "width_of (V64 v) = W64"

fun val_bytes :: "val \<Rightarrow> u8 list" where
  "val_bytes (V8 v) = le_bytes 1 v"
| "val_bytes (V16 v) = le_bytes 2 v"
| "val_bytes (V32 v) = le_bytes 4 v"
| "val_bytes (V64 v) = le_bytes 8 v"

definition write_cmd :: "ipc_h \<Rightarrow> u32 \<Rightarrow> val \<Rightarrow> u8 list" where
  "write_cmd c a v = [write_op c (width_of v)] @ le_bytes 4 a @ val_bytes v"

definition read_cmd :: "ipc_h \<Rightarrow> u32 \<Rightarrow> width \<Rightarrow> u8 list" where
  "read_cmd c a w = [read_op c w] @ le_bytes 4 a"

text \<open>
  A facade with read-after-write semantics: a read of the width and address just written
  returns the value written. And a facade whose writes leave an active machine active.
\<close>

definition read_after_write :: "'m vm_facade \<Rightarrow> bool" where
  "read_after_write f \<longleftrightarrow>
     (\<forall>a v m. fst (memRead8 f a (memWrite8 f a v m)) = v)
     \<and> (\<forall>a v m. fst (memRead16 f a (memWrite16 f a v m)) = v)
     \<and> (\<forall>a v m. fst (memRead32 f a (memWrite32 f a v m)) = v)
     \<and> (\<forall>a v m. fst (memRead64 f a (memWrite64 f a v m)) = v)"

definition writes_keep_active :: "'m vm_facade \<Rightarrow> bool" where
  "writes_keep_active f \<longleftrightarrow>
     (\<forall>a m. HasActiveMachine f m \<longrightarrow>
        (\<forall>v. HasActiveMachine f (memWrite8 f a v m))
        \<and> (\<forall>v. HasActiveMachine f (memWrite16 f a v m))
        \<and> (\<forall>v. HasActiveMachine f (memWrite32 f a v m))
        \<and> (\<forall>v. HasActiveMachine f (memWrite64 f a v m)))"

section \<open>Basic facts\<close>

subsection \<open>Codec round trip\<close>

lemma length_le_bytes [simp]: "length (le_bytes n w) = n"
  by (induction n arbitrary: w) auto

lemma le_word_le_bytes_take:
  "(le_word (le_bytes n w) :: 'a::len word) = take_bit (8 * n) (w :: 'a word)"
proof (induction n arbitrary: w)
  case 0
  then show ?case by simp
next
  case (Suc n)
  show ?case
    apply (simp add: Suc)
    apply (rule bit_word_eqI)
    apply (auto simp add: bit_simps)
    done
qed

lemma le_u8 [simp]: "(le_word (le_bytes 1 (w::u8)) :: u8) = w"
  by (simp add: le_word_le_bytes_take)

lemma le_u16 [simp]: "(le_word (le_bytes 2 (w::u16)) :: u16) = w"
  by (simp add: le_word_le_bytes_take take_bit_word_eq_self)

lemma le_u32 [simp]: "(le_word (le_bytes 4 (w::u32)) :: u32) = w"
  by (simp add: le_word_le_bytes_take take_bit_word_eq_self)

lemma le_u64 [simp]: "(le_word (le_bytes 8 (w::u64)) :: u64) = w"
  by (simp add: le_word_le_bytes_take take_bit_word_eq_self)

lemma le_bytes_numeral:
  "le_bytes 1 w = [ucast w]"
  "le_bytes 2 w = [ucast w, ucast (drop_bit 8 w)]"
  "le_bytes 4 w = [ucast w, ucast (drop_bit 8 w), ucast (drop_bit 16 w), ucast (drop_bit 24 w)]"
  "le_bytes 8 w = [ucast w, ucast (drop_bit 8 w), ucast (drop_bit 16 w), ucast (drop_bit 24 w),
     ucast (drop_bit 32 w), ucast (drop_bit 40 w), ucast (drop_bit 48 w), ucast (drop_bit 56 w)]"
  by (simp_all add: eval_nat_numeral drop_bit_drop_bit)

lemma le_word_expand:
  "(le_word [ucast a] :: u8) = (a :: u8)"
  "(le_word [ucast b, ucast (drop_bit 8 b)] :: u16) = (b :: u16)"
  "(le_word [ucast w, ucast (drop_bit 8 w), ucast (drop_bit 16 w), ucast (drop_bit 24 w)] :: u32) = (w :: u32)"
  "(le_word [ucast q, ucast (drop_bit 8 q), ucast (drop_bit 16 q), ucast (drop_bit 24 q),
     ucast (drop_bit 32 q), ucast (drop_bit 40 q), ucast (drop_bit 48 q), ucast (drop_bit 56 q)] :: u64) = (q :: u64)"
  using le_u8 [of a] le_u16 [of b] le_u32 [of w] le_u64 [of q]
  by (simp_all only: le_bytes_numeral)

lemma le_word_single: "(le_word [x] :: u8) = x"
  by simp

lemma count_two: "(le_word [2, 0] :: u16) = 2"
  by simp

subsection \<open>The loop\<close>

lemma loop_step:
  "i < batch \<Longrightarrow> ParseCommand_loop c f buf batch i st =
     (case ParseCommand_body c f buf st of
        Error e \<Rightarrow> Error e
      | Next st' \<Rightarrow> ParseCommand_loop c f buf batch (i + 1) st')"
  by (subst ParseCommand_loop.simps) simp

lemma loop_done: "\<not> i < batch \<Longrightarrow> ParseCommand_loop c f buf batch i st = Next st"
  by (subst ParseCommand_loop.simps) simp

text \<open>A run of the first \<open>k\<close> iterations that succeeds is the start of every longer run.\<close>

lemma loop_prefix:
  "i \<le> k \<Longrightarrow> k \<le> batch \<Longrightarrow> ParseCommand_loop c f buf k i st = Next stk \<Longrightarrow>
   ParseCommand_loop c f buf batch i st = ParseCommand_loop c f buf batch k stk"
proof (induction c f buf k i st rule: ParseCommand_loop.induct)
  case (1 c f buf k i st)
  show ?case
  proof (cases "i < k")
    case True
    then obtain st' where b: "ParseCommand_body c f buf st = Next st'"
      using "1.prems"(3) by (auto simp: loop_step split: flow.splits)
    have "ParseCommand_loop c f buf k (i + 1) st' = Next stk"
      using "1.prems"(3) True b by (simp add: loop_step)
    then have "ParseCommand_loop c f buf batch (i + 1) st' = ParseCommand_loop c f buf batch k stk"
      using "1.IH"[OF True b] True "1.prems"(2) by simp
    then show ?thesis using True "1.prems"(2) b by (simp add: loop_step)
  next
    case False
    then have "i = k" "stk = st" using "1.prems" by (auto simp: loop_done)
    then show ?thesis by simp
  qed
qed

text \<open>A run that succeeds has passed through a state after each shorter run.\<close>

lemma loop_prefix_exists:
  "i \<le> j \<Longrightarrow> j \<le> k \<Longrightarrow> ParseCommand_loop c f buf k i st = Next stk \<Longrightarrow>
   \<exists>stj. ParseCommand_loop c f buf j i st = Next stj"
proof (induction c f buf j i st rule: ParseCommand_loop.induct)
  case (1 c f buf j i st)
  show ?case
  proof (cases "i < j")
    case True
    then have ik: "i < k" using "1.prems" by simp
    then obtain st' where b: "ParseCommand_body c f buf st = Next st'"
      using "1.prems"(3) by (auto simp: loop_step split: flow.splits)
    have "ParseCommand_loop c f buf k (i + 1) st' = Next stk"
      using "1.prems"(3) ik b by (simp add: loop_step)
    then have "\<exists>stj. ParseCommand_loop c f buf j (i + 1) st' = Next stj"
      using "1.IH"[OF True b] True "1.prems"(2) by simp
    then show ?thesis using True b by (simp add: loop_step)
  next
    case False
    then show ?thesis by (simp add: loop_done)
  qed
qed

text \<open>The first failing iteration ends the loop, whatever the batch size.\<close>

lemma loop_abort:
  assumes "k < batch" "ParseCommand_loop c f buf k 0 st0 = Next stk"
    and "ParseCommand_body c f buf stk = Error e"
  shows "ParseCommand_loop c f buf batch 0 st0 = Error e"
proof -
  have "ParseCommand_loop c f buf batch 0 st0 = ParseCommand_loop c f buf batch k stk"
    using assms(1,2) by (intro loop_prefix) simp_all
  then show ?thesis using assms(1,3) by (simp add: loop_step)
qed

subsection \<open>The switch, case by case\<close>

lemma fetch_head_simps [simp]:
  "buf_cnt (fetch_head st) = buf_cnt st" "ret_cnt (fetch_head st) = ret_cnt st"
  "ret_buffer (fetch_head st) = ret_buffer st" "vm (fetch_head st) = vm st"
  "calls (fetch_head st) = calls st"
  by (simp_all add: fetch_head_def)

lemmas codec_defs = FromArray_u8_def FromArray_u16_def FromArray_u32_def FromArray_u64_def
  ToArray_u8_def ToArray_u16_def ToArray_u32_def ToArray_u64_def

lemma body_MsgRead8:
  "buf (buf_cnt st) = MsgRead8 c \<Longrightarrow>
   ParseCommand_body c f buf st = Read_N c f buf W8 st"
  by (simp add: ParseCommand_body_def Read_N_def Let_def split_beta SafetyChecks_def codec_defs
      not_less add.commute)

lemma body_MsgRead16:
  "buf (buf_cnt st) \<noteq> MsgRead8 c \<Longrightarrow> buf (buf_cnt st) = MsgRead16 c \<Longrightarrow>
   ParseCommand_body c f buf st = Read_N c f buf W16 st"
  by (simp add: ParseCommand_body_def Read_N_def Let_def split_beta SafetyChecks_def codec_defs
      not_less add.commute)

lemma body_MsgRead32:
  "buf (buf_cnt st) \<noteq> MsgRead8 c \<Longrightarrow> buf (buf_cnt st) \<noteq> MsgRead16 c \<Longrightarrow> buf (buf_cnt st) = MsgRead32 c \<Longrightarrow>
   ParseCommand_body c f buf st = Read_N c f buf W32 st"
  by (simp add: ParseCommand_body_def Read_N_def Let_def split_beta SafetyChecks_def codec_defs
      not_less add.commute)

lemma body_MsgRead64:
  "buf (buf_cnt st) \<noteq> MsgRead8 c \<Longrightarrow> buf (buf_cnt st) \<noteq> MsgRead16 c \<Longrightarrow> buf (buf_cnt st) \<noteq> MsgRead32 c \<Longrightarrow> buf (buf_cnt st) = MsgRead64 c \<Longrightarrow>
   ParseCommand_body c f buf st = Read_N c f buf W64 st"
  by (simp add: ParseCommand_body_def Read_N_def Let_def split_beta SafetyChecks_def codec_defs
      not_less add.commute)

lemma body_MsgWrite8:
  "buf (buf_cnt st) \<noteq> MsgRead8 c \<Longrightarrow> buf (buf_cnt st) \<noteq> MsgRead16 c \<Longrightarrow> buf (buf_cnt st) \<noteq> MsgRead32 c \<Longrightarrow> buf (buf_cnt st) \<noteq> MsgRead64 c \<Longrightarrow> buf (buf_cnt st) = MsgWrite8 c \<Longrightarrow>
   ParseCommand_body c f buf st = Write_N c f buf W8 st"
  by (simp add: ParseCommand_body_def Write_N_def Let_def split_beta SafetyChecks_def codec_defs
      not_less add.commute)

lemma body_MsgWrite16:
  "buf (buf_cnt st) \<noteq> MsgRead8 c \<Longrightarrow> buf (buf_cnt st) \<noteq> MsgRead16 c \<Longrightarrow> buf (buf_cnt st) \<noteq> MsgRead32 c \<Longrightarrow> buf (buf_cnt st) \<noteq> MsgRead64 c \<Longrightarrow> buf (buf_cnt st) \<noteq> MsgWrite8 c \<Longrightarrow> buf (buf_cnt st) = MsgWrite16 c \<Longrightarrow>
   ParseCommand_body c f buf st = Write_N c f buf W16 st"
  by (simp add: ParseCommand_body_def Write_N_def Let_def split_beta SafetyChecks_def codec_defs
      not_less add.commute)

lemma body_MsgWrite32:
  "buf (buf_cnt st) \<noteq> MsgRead8 c \<Longrightarrow> buf (buf_cnt st) \<noteq> MsgRead16 c \<Longrightarrow> buf (buf_cnt st) \<noteq> MsgRead32 c \<Longrightarrow> buf (buf_cnt st) \<noteq> MsgRead64 c \<Longrightarrow> buf (buf_cnt st) \<noteq> MsgWrite8 c \<Longrightarrow> buf (buf_cnt st) \<noteq> MsgWrite16 c \<Longrightarrow> buf (buf_cnt st) = MsgWrite32 c \<Longrightarrow>
   ParseCommand_body c f buf st = Write_N c f buf W32 st"
  by (simp add: ParseCommand_body_def Write_N_def Let_def split_beta SafetyChecks_def codec_defs
      not_less add.commute)

lemma body_MsgWrite64:
  "buf (buf_cnt st) \<noteq> MsgRead8 c \<Longrightarrow> buf (buf_cnt st) \<noteq> MsgRead16 c \<Longrightarrow> buf (buf_cnt st) \<noteq> MsgRead32 c \<Longrightarrow> buf (buf_cnt st) \<noteq> MsgRead64 c \<Longrightarrow> buf (buf_cnt st) \<noteq> MsgWrite8 c \<Longrightarrow> buf (buf_cnt st) \<noteq> MsgWrite16 c \<Longrightarrow> buf (buf_cnt st) \<noteq> MsgWrite32 c \<Longrightarrow> buf (buf_cnt st) = MsgWrite64 c \<Longrightarrow>
   ParseCommand_body c f buf st = Write_N c f buf W64 st"
  by (simp add: ParseCommand_body_def Write_N_def Let_def split_beta SafetyChecks_def codec_defs
      not_less add.commute)

lemma body_default:
  "buf (buf_cnt st) \<noteq> MsgRead8 c \<Longrightarrow> buf (buf_cnt st) \<noteq> MsgRead16 c \<Longrightarrow> buf (buf_cnt st) \<noteq> MsgRead32 c \<Longrightarrow> buf (buf_cnt st) \<noteq> MsgRead64 c \<Longrightarrow> buf (buf_cnt st) \<noteq> MsgWrite8 c \<Longrightarrow> buf (buf_cnt st) \<noteq> MsgWrite16 c \<Longrightarrow> buf (buf_cnt st) \<noteq> MsgWrite32 c \<Longrightarrow> buf (buf_cnt st) \<noteq> MsgWrite64 c \<Longrightarrow> ParseCommand_body c f buf st = Error (fetch_head st)"
  by (simp add: ParseCommand_body_def Let_def)

lemma body_decode:
  "ParseCommand_body c f buf st =
     (case decode c (buf (buf_cnt st)) of
        None \<Rightarrow> Error (fetch_head st)
      | Some (RD w) \<Rightarrow> Read_N c f buf w st
      | Some (WR w) \<Rightarrow> Write_N c f buf w st)"
  by (simp add: decode_def body_MsgRead8 body_MsgRead16 body_MsgRead32 body_MsgRead64
      body_MsgWrite8 body_MsgWrite16 body_MsgWrite32 body_MsgWrite64 body_default)

lemma decode_None_iff: "decode c opc = None \<longleftrightarrow> opc \<notin> set (opcodes c)"
  by (simp add: decode_def opcodes_def)

lemma decode_read: "distinct_opcodes c \<Longrightarrow> decode c (read_op c w) = Some (RD w)"
  by (cases w) (auto simp add: decode_def distinct_opcodes_def opcodes_def)

lemma decode_write: "distinct_opcodes c \<Longrightarrow> decode c (write_op c w) = Some (WR w)"
  by (cases w) (auto simp add: decode_def distinct_opcodes_def opcodes_def)

lemma decode_ops:
  assumes "distinct_opcodes c"
  shows "decode c (MsgRead8 c) = Some (RD W8)" "decode c (MsgRead16 c) = Some (RD W16)"
    "decode c (MsgRead32 c) = Some (RD W32)" "decode c (MsgRead64 c) = Some (RD W64)"
    "decode c (MsgWrite8 c) = Some (WR W8)" "decode c (MsgWrite16 c) = Some (WR W16)"
    "decode c (MsgWrite32 c) = Some (WR W32)" "decode c (MsgWrite64 c) = Some (WR W64)"
  using decode_read [OF assms, of W8] decode_read [OF assms, of W16]
    decode_read [OF assms, of W32] decode_read [OF assms, of W64]
    decode_write [OF assms, of W8] decode_write [OF assms, of W16]
    decode_write [OF assms, of W32] decode_write [OF assms, of W64]
  by simp_all

lemma not_multi:
  assumes "distinct_opcodes c"
  shows "MsgRead8 c \<noteq> MsgMultiCommand c" "MsgRead16 c \<noteq> MsgMultiCommand c"
    "MsgRead32 c \<noteq> MsgMultiCommand c" "MsgRead64 c \<noteq> MsgMultiCommand c"
    "MsgWrite8 c \<noteq> MsgMultiCommand c" "MsgWrite16 c \<noteq> MsgMultiCommand c"
    "MsgWrite32 c \<noteq> MsgMultiCommand c" "MsgWrite64 c \<noteq> MsgMultiCommand c"
  using assms by (auto simp: distinct_opcodes_def opcodes_def)

subsection \<open>Properties of one iteration\<close>

lemma Read_N_Next:
  "Read_N c f buf w st = Next st' \<longleftrightarrow>
     SafetyChecks c (buf_cnt st) 5 (ret_cnt st) (nbytes w) \<and>
     st' = (fetch_head st)
             \<lparr>ret_buffer := store_bytes (ret_buffer st)
                  (fst (fst (facade_read f w (le_word (map buf [buf_cnt st + 1 ..< buf_cnt st + 5])) (vm st))))
                  (ret_cnt st),
              ret_cnt := ret_cnt st + nbytes w, buf_cnt := buf_cnt st + 5,
              vm := snd (facade_read f w (le_word (map buf [buf_cnt st + 1 ..< buf_cnt st + 5])) (vm st)),
              calls := calls st @ [snd (fst (facade_read f w (le_word (map buf [buf_cnt st + 1 ..< buf_cnt st + 5])) (vm st)))]\<rparr>"
  by (auto simp: Read_N_def SafetyChecks_def Let_def)

lemma Write_N_Next:
  "Write_N c f buf w st = Next st' \<longleftrightarrow>
     SafetyChecks c (buf_cnt st) (5 + nbytes w) (ret_cnt st) 0 \<and>
     st' = (fetch_head st)
             \<lparr>buf_cnt := buf_cnt st + (5 + nbytes w),
              vm := snd (facade_write f w (le_word (map buf [buf_cnt st + 1 ..< buf_cnt st + 5]))
                          (map buf [buf_cnt st + 5 ..< buf_cnt st + 5 + nbytes w]) (vm st)),
              calls := calls st @ [fst (facade_write f w (le_word (map buf [buf_cnt st + 1 ..< buf_cnt st + 5]))
                          (map buf [buf_cnt st + 5 ..< buf_cnt st + 5 + nbytes w]) (vm st))],
              fetched := fetched (fetch_head st) @ [buf_cnt st + 5 ..< buf_cnt st + 5 + nbytes w]\<rparr>"
  by (auto simp: Write_N_def SafetyChecks_def Let_def)

lemma Read_N_Error:
  "Read_N c f buf w st = Error e \<longleftrightarrow>
     \<not> SafetyChecks c (buf_cnt st) 5 (ret_cnt st) (nbytes w) \<and> e = fetch_head st"
  by (auto simp: Read_N_def SafetyChecks_def Let_def)

lemma Write_N_Error:
  "Write_N c f buf w st = Error e \<longleftrightarrow>
     \<not> SafetyChecks c (buf_cnt st) (5 + nbytes w) (ret_cnt st) 0 \<and> e = fetch_head st"
  by (auto simp: Write_N_def SafetyChecks_def Let_def)

lemma body_Error_iff:
  "ParseCommand_body c f buf st = Error e \<longleftrightarrow>
     e = fetch_head st \<and>
     (case decode c (buf (buf_cnt st)) of
        None \<Rightarrow> True
      | Some d \<Rightarrow> \<not> SafetyChecks c (buf_cnt st) (wire_size d) (ret_cnt st) (reply_size d))"
  by (auto simp: body_decode Read_N_Error Write_N_Error split: option.splits cmd.splits)

lemma nbytes_bounds: "1 \<le> nbytes w" "nbytes w \<le> 8"
  by (cases w; simp)+

lemma body_Next_cursors:
  assumes "ParseCommand_body c f buf st = Next st'"
  shows "buf_cnt st < buf_cnt st'" "buf_cnt st' \<le> buf_cnt st + 13" "buf_cnt st' \<le> MAX_IPC_SIZE c"
    "ret_cnt st \<le> ret_cnt st'" "ret_cnt st' \<le> ret_cnt st + 8" "ret_cnt st' \<le> MAX_IPC_RETURN_SIZE c"
  using assms nbytes_bounds
  by (auto simp: body_decode Read_N_Next Write_N_Next SafetyChecks_def
      split: option.splits cmd.splits)

subsection \<open>The reply buffer along a run\<close>

lemma map_store_bytes_append:
  "1 \<le> i \<Longrightarrow> map (store_bytes b bs i) [1 ..< i + length bs] = map b [1 ..< i] @ bs"
proof -
  assume i: "1 \<le> i"
  have "[1 ..< i + length bs] = [1 ..< i] @ [i ..< i + length bs]"
    using i by (rule upt_add_eq_append)
  moreover have "map (store_bytes b bs i) [1 ..< i] = map b [1 ..< i]"
    by (simp add: store_bytes_def)
  moreover have "map (store_bytes b bs i) [i ..< i + length bs] = bs"
    by (rule nth_equalityI) (simp_all add: store_bytes_def)
  ultimately show ?thesis by simp
qed

lemma facade_read_payload:
  "payload (snd (fst (facade_read f w a m))) = fst (fst (facade_read f w a m))"
  "length (fst (fst (facade_read f w a m))) = nbytes w"
  by (cases w; simp add: Let_def)+

lemma facade_write_payload: "payload (fst (facade_write f w a bs m)) = []"
  by (cases w; simp)

lemma body_reply_inv:
  assumes "ParseCommand_body c f buf st = Next st'" "reply_inv st"
  shows "reply_inv st'"
proof (cases "decode c (buf (buf_cnt st))")
  case None
  then show ?thesis using assms by (simp add: body_decode)
next
  case (Some d)
  show ?thesis
  proof (cases d)
    case (RD w)
    let ?r = "facade_read f w (le_word (map buf [buf_cnt st + 1 ..< buf_cnt st + 5])) (vm st)"
    let ?bs = "fst (fst ?r)"
    have len: "length ?bs = nbytes w" and pl: "payload (snd (fst ?r)) = ?bs"
      by (simp_all add: facade_read_payload)
    have st': "ret_cnt st' = ret_cnt st + nbytes w"
      "ret_buffer st' = store_bytes (ret_buffer st) ?bs (ret_cnt st)"
      "calls st' = calls st @ [snd (fst ?r)]"
      using assms(1) Some RD by (simp_all add: body_decode Read_N_Next)
    have "map (store_bytes (ret_buffer st) ?bs (ret_cnt st)) [1 ..< ret_cnt st + length ?bs]
          = map (ret_buffer st) [1 ..< ret_cnt st] @ ?bs"
      using assms(2) by (intro map_store_bytes_append) (simp add: reply_inv_def)
    then show ?thesis
      using assms(2) len pl by (simp add: reply_inv_def st')
  next
    case (WR w)
    then show ?thesis
      using assms Some
      by (auto simp add: body_decode Write_N_Next reply_inv_def facade_write_payload)
  qed
qed

lemma loop_reply_inv:
  "ParseCommand_loop c f buf batch i st = Next st' \<Longrightarrow> reply_inv st \<Longrightarrow> reply_inv st'"
proof (induction c f buf batch i st rule: ParseCommand_loop.induct)
  case (1 c f buf batch i st)
  show ?case
  proof (cases "i < batch")
    case True
    then obtain s where b: "ParseCommand_body c f buf st = Next s"
      using "1.prems"(1) by (auto simp: loop_step split: flow.splits)
    then have "ParseCommand_loop c f buf batch (i + 1) s = Next st'"
      using "1.prems"(1) True by (simp add: loop_step)
    then show ?thesis
      using "1.IH"[OF True b] body_reply_inv[OF b "1.prems"(2)] by simp
  next
    case False
    then show ?thesis using "1.prems" by (simp add: loop_done)
  qed
qed

lemma body_subcommand:
  assumes "ParseCommand_body c f buf st = Next s" and "1 \<le> ret_cnt st"
  shows "\<exists>x bs. subcommands c buf (Suc n) (buf_cnt st) = x # subcommands c buf n (buf_cnt s)
           \<and> read_values f (x # cs) (vm st) = bs @ read_values f cs (vm s)
           \<and> map (ret_buffer s) [1 ..< ret_cnt s] = map (ret_buffer st) [1 ..< ret_cnt st] @ bs
           \<and> 1 \<le> ret_cnt s"
proof (cases "decode c (buf (buf_cnt st))")
  case None
  then show ?thesis using assms by (simp add: body_decode)
next
  case (Some d)
  let ?a = "le_word (map buf [buf_cnt st + 1 ..< buf_cnt st + 5]) :: u32"
  show ?thesis
  proof (cases d)
    case (RD w)
    let ?r = "facade_read f w ?a (vm st)"
    let ?bs = "fst (fst ?r)"
    have len: "length ?bs = nbytes w"
      by (simp add: facade_read_payload)
    have s: "ret_cnt s = ret_cnt st + nbytes w" "buf_cnt s = buf_cnt st + 5"
      "ret_buffer s = store_bytes (ret_buffer st) ?bs (ret_cnt st)" "vm s = snd ?r"
      using assms(1) Some RD by (simp_all add: body_decode Read_N_Next)
    have "map (store_bytes (ret_buffer st) ?bs (ret_cnt st)) [1 ..< ret_cnt st + length ?bs]
          = map (ret_buffer st) [1 ..< ret_cnt st] @ ?bs"
      using assms(2) by (intro map_store_bytes_append) simp
    from this [unfolded len]
    have "map (ret_buffer s) [1 ..< ret_cnt s] = map (ret_buffer st) [1 ..< ret_cnt st] @ ?bs"
      by (simp add: s)
    moreover have "subcommands c buf (Suc n) (buf_cnt st)
                   = ReadCmd w ?a # subcommands c buf n (buf_cnt s)"
      using Some RD by (simp add: s)
    moreover have "read_values f (ReadCmd w ?a # cs) (vm st) = ?bs @ read_values f cs (vm s)"
      by (simp add: s)
    moreover have "1 \<le> ret_cnt s"
      using assms(2) by (simp add: s)
    ultimately show ?thesis by blast
  next
    case (WR w)
    let ?v = "map buf [buf_cnt st + 5 ..< buf_cnt st + 5 + nbytes w]"
    have s: "ret_cnt s = ret_cnt st" "buf_cnt s = buf_cnt st + (5 + nbytes w)"
      "ret_buffer s = ret_buffer st" "vm s = snd (facade_write f w ?a ?v (vm st))"
      using assms(1) Some WR by (simp_all add: body_decode Write_N_Next)
    have "subcommands c buf (Suc n) (buf_cnt st)
          = WriteCmd w ?a ?v # subcommands c buf n (buf_cnt s)"
      using Some WR by (simp add: s add.assoc)
    moreover have "read_values f (WriteCmd w ?a ?v # cs) (vm st) = [] @ read_values f cs (vm s)"
      by (simp add: s)
    moreover have "map (ret_buffer s) [1 ..< ret_cnt s] = map (ret_buffer st) [1 ..< ret_cnt st] @ []"
      by (simp add: s)
    moreover have "1 \<le> ret_cnt s"
      using assms(2) by (simp add: s)
    ultimately show ?thesis by blast
  qed
qed

text \<open>
  A run that succeeds has parsed one sub-command of the request in each iteration, and has
  appended to the reply buffer the values of the read operations among them, in their order.
\<close>

lemma loop_subcommands:
  "ParseCommand_loop c f buf batch i st = Next st' \<Longrightarrow> 1 \<le> ret_cnt st \<Longrightarrow>
   length (subcommands c buf (batch - i) (buf_cnt st)) = batch - i
   \<and> map (ret_buffer st') [1 ..< ret_cnt st']
     = map (ret_buffer st) [1 ..< ret_cnt st]
       @ read_values f (subcommands c buf (batch - i) (buf_cnt st)) (vm st)"
proof (induction c f buf batch i st rule: ParseCommand_loop.induct)
  case (1 c f buf batch i st)
  show ?case
  proof (cases "i < batch")
    case True
    then obtain s where b: "ParseCommand_body c f buf st = Next s"
      using "1.prems"(1) by (auto simp: loop_step split: flow.splits)
    then have run: "ParseCommand_loop c f buf batch (i + 1) s = Next st'"
      using "1.prems"(1) True by (simp add: loop_step)
    let ?n = "batch - (i + 1)"
    have n: "batch - i = Suc ?n"
      using True by simp
    obtain x bs where x: "subcommands c buf (Suc ?n) (buf_cnt st) = x # subcommands c buf ?n (buf_cnt s)"
      and rv: "read_values f (x # subcommands c buf ?n (buf_cnt s)) (vm st)
               = bs @ read_values f (subcommands c buf ?n (buf_cnt s)) (vm s)"
      and rb: "map (ret_buffer s) [1 ..< ret_cnt s] = map (ret_buffer st) [1 ..< ret_cnt st] @ bs"
      and pos: "1 \<le> ret_cnt s"
      using body_subcommand [OF b "1.prems"(2), of ?n "subcommands c buf ?n (buf_cnt s)"] by blast
    have ih: "length (subcommands c buf ?n (buf_cnt s)) = ?n"
      "map (ret_buffer st') [1 ..< ret_cnt st']
         = map (ret_buffer s) [1 ..< ret_cnt s]
           @ read_values f (subcommands c buf ?n (buf_cnt s)) (vm s)"
      using "1.IH" [OF True b run pos] by simp_all
    have l: "length (x # subcommands c buf ?n (buf_cnt s)) = Suc ?n"
      using ih(1) by simp
    have m: "map (ret_buffer st') [1 ..< ret_cnt st']
             = map (ret_buffer st) [1 ..< ret_cnt st]
               @ read_values f (x # subcommands c buf ?n (buf_cnt s)) (vm st)"
      unfolding rv using ih(2) rb by simp
    show ?thesis
      unfolding n x using l m by blast
  next
    case False
    then show ?thesis using "1.prems" by (simp add: loop_done)
  qed
qed


lemma subcommands_step:
  "0 < n \<Longrightarrow> subcommands c buf n p =
     (case decode c (buf p) of
        None \<Rightarrow> []
      | Some (RD w) \<Rightarrow>
          ReadCmd w (le_word (map buf [p + 1 ..< p + 5])) # subcommands c buf (n - 1) (p + 5)
      | Some (WR w) \<Rightarrow>
          WriteCmd w (le_word (map buf [p + 1 ..< p + 5])) (map buf [p + 5 ..< p + 5 + nbytes w])
            # subcommands c buf (n - 1) (p + 5 + nbytes w))"
  by (cases n) (auto split: option.splits cmd.splits)

lemma init_subcommands:
  assumes "ParseCommand_init c buf ret m = (batch, st0)"
  shows "request_subcommands c buf = subcommands c buf batch (buf_cnt st0)"
    and "ret_cnt st0 = 1" and "vm st0 = m"
  using assms
  by (auto simp: ParseCommand_init_def request_subcommands_def split: if_splits)

subsection \<open>The cursors along a run\<close>

lemma loop_mono:
  "ParseCommand_loop c f buf batch i st = Next st' \<Longrightarrow>
   buf_cnt st \<le> buf_cnt st' \<and> ret_cnt st \<le> ret_cnt st'"
proof (induction c f buf batch i st rule: ParseCommand_loop.induct)
  case (1 c f buf batch i st)
  show ?case
  proof (cases "i < batch")
    case True
    then obtain s where b: "ParseCommand_body c f buf st = Next s"
      using "1.prems" by (auto simp: loop_step split: flow.splits)
    then have "ParseCommand_loop c f buf batch (i + 1) s = Next st'"
      using "1.prems" True by (simp add: loop_step)
    then have "buf_cnt s \<le> buf_cnt st' \<and> ret_cnt s \<le> ret_cnt st'"
      using "1.IH"[OF True b] by simp
    then show ?thesis
      using body_Next_cursors(1,4)[OF b] by simp
  next
    case False
    then show ?thesis using "1.prems" by (simp add: loop_done)
  qed
qed

lemma loop_within_capacity:
  "ParseCommand_loop c f buf batch i st = Next st' \<Longrightarrow> i < batch \<Longrightarrow>
   buf_cnt st' \<le> MAX_IPC_SIZE c \<and> ret_cnt st' \<le> MAX_IPC_RETURN_SIZE c"
proof (induction c f buf batch i st rule: ParseCommand_loop.induct)
  case (1 c f buf batch i st)
  obtain s where b: "ParseCommand_body c f buf st = Next s"
    using "1.prems" by (auto simp: loop_step split: flow.splits)
  then have run: "ParseCommand_loop c f buf batch (i + 1) s = Next st'"
    using "1.prems" by (simp add: loop_step)
  show ?case
  proof (cases "i + 1 < batch")
    case True
    then show ?thesis using "1.IH"[OF "1.prems"(2) b run] by simp
  next
    case False
    then have "st' = s" using run by (simp add: loop_done)
    then show ?thesis using body_Next_cursors(3,6)[OF b] by simp
  qed
qed

lemma loop_growth:
  "ParseCommand_loop c f buf batch i st = Next st' \<Longrightarrow>
   buf_cnt st' \<le> buf_cnt st + 13 * (batch - i) \<and> ret_cnt st' \<le> ret_cnt st + 8 * (batch - i)"
proof (induction c f buf batch i st rule: ParseCommand_loop.induct)
  case (1 c f buf batch i st)
  show ?case
  proof (cases "i < batch")
    case True
    then obtain s where b: "ParseCommand_body c f buf st = Next s"
      using "1.prems" by (auto simp: loop_step split: flow.splits)
    then have "ParseCommand_loop c f buf batch (i + 1) s = Next st'"
      using "1.prems" True by (simp add: loop_step)
    then have "buf_cnt st' \<le> buf_cnt s + 13 * (batch - (i + 1))
               \<and> ret_cnt st' \<le> ret_cnt s + 8 * (batch - (i + 1))"
      using "1.IH"[OF True b] by simp
    moreover have "batch - i = Suc (batch - (i + 1))"
      using True by simp
    ultimately show ?thesis
      using body_Next_cursors(2,5)[OF b] by simp
  next
    case False
    then show ?thesis using "1.prems" by (simp add: loop_done)
  qed
qed

text \<open>
  The \<^verbatim>\<open>u32\<close> cursors of the source never wrap: not when a sub-command advances them,
  and not in the sums that \<^verbatim>\<open>SafetyChecks\<close> forms for the next sub-command.
\<close>

lemma cursors_no_wrap:
  assumes "ParseCommand_init c buf ret m = (batch, st0)" and "k \<le> batch"
    and "ParseCommand_loop c f buf k 0 st0 = Next stk"
  shows "buf_cnt stk + 13 < 2 ^ 32 \<and> ret_cnt stk + 8 < 2 ^ 32"
proof -
  have "batch < 2 ^ 16 \<and> buf_cnt st0 \<le> 3 \<and> ret_cnt st0 = 1"
  proof (cases "buf 0 = MsgMultiCommand c")
    case True
    have "unat (FromArray_u16 buf 0 1) < 2 ^ LENGTH(16)"
      by (rule unsigned_less)
    then show ?thesis using assms(1) True by (auto simp: ParseCommand_init_def)
  next
    case False
    then show ?thesis using assms(1) by (auto simp: ParseCommand_init_def)
  qed
  moreover have "buf_cnt stk \<le> buf_cnt st0 + 13 * k \<and> ret_cnt stk \<le> ret_cnt st0 + 8 * k"
    using loop_growth[OF assms(3)] by simp
  ultimately show ?thesis using assms(2) by simp
qed

subsection \<open>Running the dispatcher on concrete requests\<close>

lemmas run_defs = ParseCommand_def ParseCommand_init_def ParseCommand_loop.simps
  ParseCommand_body_def fetch_head_def cfg_def ram_facade_def request_def Let_def
  SafetyChecks_def codec_defs store_bytes_def MakeOkIPC_def MakeFailIPC_def
  write_portable_def ram_load_def ram_store_def machine0_def halted_def upt_rec

lemma write_portable_1 [simp]: "write_portable b 1 = [b 0]"
  by (simp add: write_portable_def)

lemma read_portable_nth:
  "i < length bs \<Longrightarrow> length bs \<le> MAX_IPC_SIZE c \<Longrightarrow> read_portable c bs old i = bs ! i"
  by (simp add: read_portable_def)

lemma read_portable_beyond:
  "length bs \<le> i \<Longrightarrow> read_portable c bs old i = old i"
  by (simp add: read_portable_def)

lemmas serve_defs = ExecuteTask_connection_def read_portable_def server0_def

text \<open>Rules that run the dispatcher on a request given byte by byte, for any configuration.\<close>

lemmas sym_run = ParseCommand_def ParseCommand_init_def loop_step loop_done body_decode
  Read_N_def Write_N_def fetch_head_def Let_def read_portable_def min_absorb1
  le_bytes_numeral le_word_expand FromArray_u16_def store_bytes_def MakeOkIPC_def MakeFailIPC_def
  write_portable_def upt_rec

lemmas serve_run = ExecuteTask_connection_def write_cmd_def read_cmd_def sym_run

subsection \<open>A run of Read8 sub-commands\<close>

lemma read8_run:
  "\<forall>j<n. buf (buf_cnt st + 5 * j) = MsgRead8 c \<Longrightarrow>
   buf_cnt st + 5 * n \<le> MAX_IPC_SIZE c \<Longrightarrow> ret_cnt st + n \<le> MAX_IPC_RETURN_SIZE c \<Longrightarrow>
   \<exists>st'. ParseCommand_loop c f buf (i + n) i st = Next st'
         \<and> buf_cnt st' = buf_cnt st + 5 * n \<and> ret_cnt st' = ret_cnt st + n"
proof (induction n arbitrary: st i)
  case 0
  then show ?case by (simp add: loop_done)
next
  case (Suc n)
  have op: "buf (buf_cnt st) = MsgRead8 c"
    using Suc.prems(1) by (metis add_0_right mult_0_right zero_less_Suc)
  have chk: "SafetyChecks c (buf_cnt st) 5 (ret_cnt st) (nbytes W8)"
    using Suc.prems(2,3) by (simp add: SafetyChecks_def)
  obtain s where b: "ParseCommand_body c f buf st = Next s"
    and s: "buf_cnt s = buf_cnt st + 5" "ret_cnt s = ret_cnt st + 1"
    using chk op by (simp add: body_MsgRead8 Read_N_Next)
  have "\<forall>j<n. buf (buf_cnt s + 5 * j) = MsgRead8 c"
  proof (intro allI impI)
    fix j assume "j < n"
    then have "Suc j < Suc n" by simp
    with Suc.prems(1) have "buf (buf_cnt st + 5 * Suc j) = MsgRead8 c" by blast
    moreover have "buf_cnt s + 5 * j = buf_cnt st + 5 * Suc j" by (simp add: s)
    ultimately show "buf (buf_cnt s + 5 * j) = MsgRead8 c" by (simp only:)
  qed
  moreover have "buf_cnt s + 5 * n \<le> MAX_IPC_SIZE c" "ret_cnt s + n \<le> MAX_IPC_RETURN_SIZE c"
    using Suc.prems(2,3) by (simp_all add: s)
  ultimately obtain st' where st': "ParseCommand_loop c f buf (i + 1 + n) (i + 1) s = Next st'"
    "buf_cnt st' = buf_cnt s + 5 * n" "ret_cnt st' = ret_cnt s + n"
    using Suc.IH [of s "i + 1"] by blast
  have "ParseCommand_loop c f buf (i + Suc n) i st = Next st'"
    using st'(1) b by (simp add: loop_step)
  then show ?case using st'(2,3) s by simp
qed

lemma flood_buffer:
  "read_portable cfg flood old 0 = 0xFF"
  "read_portable cfg flood old 1 = 0x33"
  "read_portable cfg flood old 2 = 3"
  "3 \<le> i \<Longrightarrow> i < 4096 \<Longrightarrow> read_portable cfg flood old i = 0"
  by (simp_all add: read_portable_def flood_def cfg_def nth_append)

lemma flood_init:
  "ParseCommand_init cfg (read_portable cfg flood old) ret m =
     (819, \<lparr>ret_buffer = ret, ret_cnt = 1, buf_cnt = 3, vm = m, calls = [],
            fetched = [0] @ [1 ..< 3]\<rparr>)"
proof -
  have "FromArray_u16 (read_portable cfg flood old) 0 1 = 819"
    by (simp add: FromArray_u16_def upt_rec read_portable_def flood_def cfg_def)
  moreover have "MsgMultiCommand cfg = 0xFF"
    by (simp add: cfg_def)
  ultimately show ?thesis
    by (simp add: ParseCommand_init_def flood_buffer)
qed

text \<open>
  On the flood request the first 818 iterations succeed and leave the request cursor at
  4093, three bytes before the end of the buffer.
\<close>

lemma flood_run:
  "\<exists>stk. ParseCommand_loop cfg f (read_portable cfg flood old) 818 0
           \<lparr>ret_buffer = ret, ret_cnt = 1, buf_cnt = 3, vm = m, calls = [],
            fetched = [0] @ [1 ..< 3]\<rparr> = Next stk
         \<and> buf_cnt stk = 4093 \<and> ret_cnt stk = 819"
proof -
  let ?st0 = "\<lparr>ret_buffer = ret, ret_cnt = 1, buf_cnt = 3, vm = m, calls = [],
            fetched = [0] @ [1 ..< 3]\<rparr>"
  have "MsgRead8 cfg = 0"
    by (simp add: cfg_def)
  then have "\<forall>j<818. read_portable cfg flood old (buf_cnt ?st0 + 5 * j) = MsgRead8 cfg"
    by (simp add: flood_buffer)
  moreover have "buf_cnt ?st0 + 5 * 818 \<le> MAX_IPC_SIZE cfg"
    "ret_cnt ?st0 + 818 \<le> MAX_IPC_RETURN_SIZE cfg"
    by (simp_all add: cfg_def)
  ultimately show ?thesis
    using read8_run [of 818 "read_portable cfg flood old" ?st0 cfg f 0] by simp
qed

text \<open>On the flood request iteration 819 fails, after reading its address bytes.\<close>

lemma flood_abort:
  assumes "ParseCommand_loop cfg f (read_portable cfg flood old) 818 0 st0 = Next stk"
    and "buf_cnt stk = 4093"
  shows "decode cfg (read_portable cfg flood old (buf_cnt stk)) = Some (RD W8)"
    and "MAX_IPC_SIZE cfg < buf_cnt stk + wire_size (RD W8)"
    and "ParseCommand_loop cfg f (read_portable cfg flood old) 819 0 st0 = Error (fetch_head stk)"
proof -
  have op: "read_portable cfg flood old (buf_cnt stk) = 0"
    using assms(2) by (simp add: flood_buffer)
  then show d: "decode cfg (read_portable cfg flood old (buf_cnt stk)) = Some (RD W8)"
    by (simp add: decode_def cfg_def)
  show m: "MAX_IPC_SIZE cfg < buf_cnt stk + wire_size (RD W8)"
    using assms(2) by (simp add: cfg_def)
  then have "ParseCommand_body cfg f (read_portable cfg flood old) stk = Error (fetch_head stk)"
    using d by (simp add: body_Error_iff SafetyChecks_def)
  then show "ParseCommand_loop cfg f (read_portable cfg flood old) 819 0 st0 = Error (fetch_head stk)"
    using assms(1) by (intro loop_abort [where k = 818]) simp_all
qed

subsection \<open>Facades with read-after-write semantics\<close>

lemma raw_rules:
  assumes "read_after_write f"
  shows "fst (memRead8 f a (memWrite8 f a v8 m)) = v8"
    "fst (memRead16 f a (memWrite16 f a v16 m)) = v16"
    "fst (memRead32 f a (memWrite32 f a v32 m)) = v32"
    "fst (memRead64 f a (memWrite64 f a v64 m)) = v64"
  using assms by (simp_all add: read_after_write_def)

lemma active_rules:
  assumes "writes_keep_active f" "HasActiveMachine f m"
  shows "HasActiveMachine f (memWrite8 f a v8 m)"
    "HasActiveMachine f (memWrite16 f a v16 m)"
    "HasActiveMachine f (memWrite32 f a v32 m)"
    "HasActiveMachine f (memWrite64 f a v64 m)"
  using assms by (simp_all add: writes_keep_active_def)

lemma ram_load_store:
  "length bs \<le> 8 \<Longrightarrow> ram_load (ram_store m a bs) a (length bs) = bs"
proof (rule nth_equalityI)
  show "length (ram_load (ram_store m a bs) a (length bs)) = length bs"
    by (simp add: ram_load_def)
next
  fix i
  assume len: "length bs \<le> 8" and "i < length (ram_load (ram_store m a bs) a (length bs))"
  then have i: "i < length bs" by (simp add: ram_load_def)
  then have "unat (of_nat i :: u32) = i"
    using len by (simp add: unat_of_nat)
  then show "ram_load (ram_store m a bs) a (length bs) ! i = bs ! i"
    using i by (simp add: ram_load_def ram_store_def)
qed

lemma ram_read_after_write: "read_after_write ram_facade"
  using ram_load_store [of "le_bytes 1 v" for v :: u8]
    ram_load_store [of "le_bytes 2 v" for v :: u16]
    ram_load_store [of "le_bytes 4 v" for v :: u32]
    ram_load_store [of "le_bytes 8 v" for v :: u64]
  by (simp add: read_after_write_def ram_facade_def)

lemma ram_writes_keep_active: "writes_keep_active ram_facade"
  by (simp add: writes_keep_active_def ram_facade_def ram_store_def)

section \<open>Properties of the dispatcher\<close>

subsection \<open>Failure of a sub-command\<close>

text \<open>
  C1: when the sub-command at batch position \<open>k\<close> has an unknown opcode or fails its
  bounds check, after the \<open>k\<close> sub-commands before it have run, ParseCommand returns a
  reply of one byte, the failure status. The facade calls made are exactly those of the first
  \<open>k\<close> sub-commands, so nothing after the failing position runs, and the machine is the one
  these \<open>k\<close> sub-commands left: their writes stay.
\<close>

theorem failing_subcommand_aborts:
  assumes "HasActiveMachine f m"
    and "ParseCommand_init c buf ret m = (batch, st0)"
    and "k < batch"
    and "ParseCommand_loop c f buf k 0 st0 = Next stk"
    and "buf (buf_cnt stk) \<notin> set (opcodes c)
         \<or> (\<exists>d. decode c (buf (buf_cnt stk)) = Some d
                \<and> \<not> SafetyChecks c (buf_cnt stk) (wire_size d) (ret_cnt stk) (reply_size d))"
  shows "ParseCommand c f buf ret m =
           \<lparr>size_ipc = 1, buffer_ipc = (ret_buffer stk)(0 := IPC_FAIL c), vm_after = vm stk,
            vm_calls = calls stk, request_reads = fetched (fetch_head stk)\<rparr>
         \<and> write_portable (buffer_ipc (ParseCommand c f buf ret m))
              (size_ipc (ParseCommand c f buf ret m)) = [IPC_FAIL c]"
proof -
  have "ParseCommand_body c f buf stk = Error (fetch_head stk)"
    using assms(5) by (auto simp: body_Error_iff decode_None_iff [symmetric])
  then have "ParseCommand_loop c f buf batch 0 st0 = Error (fetch_head stk)"
    using assms(3,4) by (rule loop_abort [rotated 2])
  then show ?thesis
    using assms(1,2) by (simp add: ParseCommand_def MakeFailIPC_def)
qed

theorem failing_subcommand_aborts_witness:
  "HasActiveMachine ram_facade machine0
   \<and> request [0xFF, 2, 0, 4, 0x10, 0, 0, 0, 5, 0xFE, 0, 0, 0, 0] 9 \<notin> set (opcodes cfg)
   \<and> vm_calls (ParseCommand cfg ram_facade
        (request [0xFF, 2, 0, 4, 0x10, 0, 0, 0, 5, 0xFE, 0, 0, 0, 0]) (\<lambda>_. 0) machine0)
      = [CallWrite8 0x10 5]
   \<and> ram (vm_after (ParseCommand cfg ram_facade
        (request [0xFF, 2, 0, 4, 0x10, 0, 0, 0, 5, 0xFE, 0, 0, 0, 0]) (\<lambda>_. 0) machine0)) 0x10 = 5
   \<and> write_portable (buffer_ipc (ParseCommand cfg ram_facade
        (request [0xFF, 2, 0, 4, 0x10, 0, 0, 0, 5, 0xFE, 0, 0, 0, 0]) (\<lambda>_. 0) machine0))
        (size_ipc (ParseCommand cfg ram_facade
        (request [0xFF, 2, 0, 4, 0x10, 0, 0, 0, 5, 0xFE, 0, 0, 0, 0]) (\<lambda>_. 0) machine0)) = [0xFF]
   \<and> \<not> SafetyChecks cfg 4093 (wire_size (RD W8)) 819 (reply_size (RD W8))
   \<and> write_portable (buffer_ipc (ParseCommand cfg ram_facade
        (read_portable cfg flood (\<lambda>_. 0)) (\<lambda>_. 0) machine0))
        (size_ipc (ParseCommand cfg ram_facade
        (read_portable cfg flood (\<lambda>_. 0)) (\<lambda>_. 0) machine0)) = [0xFF]"
proof -
  let ?buf = "request [0xFF, 2, 0, 4, 0x10, 0, 0, 0, 5, 0xFE, 0, 0, 0, 0]"
  let ?st0 = "\<lparr>ret_buffer = \<lambda>_. 0, ret_cnt = 1, buf_cnt = 3, vm = machine0, calls = [],
               fetched = [0] @ [1 ..< 3]\<rparr>"
  define stk where "stk = (case ParseCommand_loop cfg ram_facade ?buf 1 0 ?st0 of Next s \<Rightarrow> s)"
  have h1: "HasActiveMachine ram_facade machine0"
    by (simp add: ram_facade_def machine0_def)
  have fail: "IPC_FAIL cfg = 0xFF"
    by (simp add: cfg_def)
  have h2: "ParseCommand_init cfg ?buf (\<lambda>_. 0) machine0 = (2, ?st0)"
    by (simp add: ParseCommand_init_def cfg_def request_def FromArray_u16_def upt_rec)
  have h3: "(1::nat) < 2" by simp
  have h4: "ParseCommand_loop cfg ram_facade ?buf 1 0 ?st0 = Next stk"
    unfolding stk_def by (simp add: run_defs)
  have cnt: "buf_cnt stk = 9" and cl: "calls stk = [CallWrite8 0x10 5]"
    and mem: "ram (vm stk) 0x10 = 5"
    unfolding stk_def by (simp_all add: run_defs)
  have bad: "?buf 9 \<notin> set (opcodes cfg)"
    by (simp add: request_def opcodes_def cfg_def)
  then have h5: "?buf (buf_cnt stk) \<notin> set (opcodes cfg)
         \<or> (\<exists>d. decode cfg (?buf (buf_cnt stk)) = Some d
                \<and> \<not> SafetyChecks cfg (buf_cnt stk) (wire_size d) (ret_cnt stk) (reply_size d))"
    by (simp add: cnt)
  have part1: "vm_calls (ParseCommand cfg ram_facade ?buf (\<lambda>_. 0) machine0) = [CallWrite8 0x10 5]
      \<and> ram (vm_after (ParseCommand cfg ram_facade ?buf (\<lambda>_. 0) machine0)) 0x10 = 5
      \<and> write_portable (buffer_ipc (ParseCommand cfg ram_facade ?buf (\<lambda>_. 0) machine0))
           (size_ipc (ParseCommand cfg ram_facade ?buf (\<lambda>_. 0) machine0)) = [0xFF]"
    using cl mem fail failing_subcommand_aborts [OF h1 h2 h3 h4 h5] by simp
  let ?fb = "read_portable cfg flood (\<lambda>_. 0)"
  obtain s where f4: "ParseCommand_loop cfg ram_facade ?fb 818 0 ?st0 = Next s"
    and fc: "buf_cnt s = 4093" and fr: "ret_cnt s = 819"
    using flood_run [of ram_facade "\<lambda>_. 0" "\<lambda>_. 0" machine0] by blast
  have f2: "ParseCommand_init cfg ?fb (\<lambda>_. 0) machine0 = (819, ?st0)"
    by (rule flood_init)
  have f3: "(818::nat) < 819" by simp
  have fd: "decode cfg (?fb (buf_cnt s)) = Some (RD W8)"
    by (rule flood_abort(1) [OF f4 fc])
  have chk: "\<not> SafetyChecks cfg 4093 (wire_size (RD W8)) 819 (reply_size (RD W8))"
    by (simp add: SafetyChecks_def cfg_def)
  then have f5: "?fb (buf_cnt s) \<notin> set (opcodes cfg)
         \<or> (\<exists>d. decode cfg (?fb (buf_cnt s)) = Some d
                \<and> \<not> SafetyChecks cfg (buf_cnt s) (wire_size d) (ret_cnt s) (reply_size d))"
    using fd by (simp add: fc fr)
  have part2: "write_portable (buffer_ipc (ParseCommand cfg ram_facade ?fb (\<lambda>_. 0) machine0))
           (size_ipc (ParseCommand cfg ram_facade ?fb (\<lambda>_. 0) machine0)) = [0xFF]"
    using fail failing_subcommand_aborts [OF h1 f2 f3 f4 f5, THEN conjunct2] by simp
  show ?thesis
    using h1 bad part1 chk part2 by blast
qed

subsection \<open>No active machine\<close>

text \<open>
  C2: without an active machine ParseCommand returns the one-byte failure reply at once: the
  result does not depend on the request, no offset of the request is read, and the facade is
  not called. This holds for every request.
\<close>

theorem inactive_machine_fails:
  assumes "\<not> HasActiveMachine f m"
  shows "ParseCommand c f buf ret m =
           \<lparr>size_ipc = 1, buffer_ipc = ret(0 := IPC_FAIL c), vm_after = m, vm_calls = [],
            request_reads = []\<rparr>
         \<and> write_portable (buffer_ipc (ParseCommand c f buf ret m))
              (size_ipc (ParseCommand c f buf ret m)) = [IPC_FAIL c]"
  using assms by (simp add: ParseCommand_def MakeFailIPC_def)

theorem inactive_machine_fails_witness:
  "\<not> HasActiveMachine ram_facade halted
   \<and> ParseCommand cfg ram_facade (request [0, 0x10, 0, 0, 0]) (\<lambda>_. 0) halted =
           \<lparr>size_ipc = 1, buffer_ipc = (\<lambda>_. 0)(0 := IPC_FAIL cfg), vm_after = halted,
            vm_calls = [], request_reads = []\<rparr>
   \<and> write_portable (buffer_ipc (ParseCommand cfg ram_facade (request [0, 0x10, 0, 0, 0]) (\<lambda>_. 0) halted))
              (size_ipc (ParseCommand cfg ram_facade (request [0, 0x10, 0, 0, 0]) (\<lambda>_. 0) halted)) = [0xFF]"
proof -
  have h: "\<not> HasActiveMachine ram_facade halted"
    by (simp add: ram_facade_def halted_def)
  have "IPC_FAIL cfg = 0xFF" by (simp add: cfg_def)
  then show ?thesis
    using h inactive_machine_fails [OF h, of cfg "request [0, 0x10, 0, 0, 0]" "\<lambda>_. 0"] by simp
qed

subsection \<open>Requests shorter than their batch\<close>

text \<open>
  C3 (as the code has it): ParseCommand is not told how many bytes were received; its
  bounds check compares against the capacity of the request buffer. When the sub-command at
  a batch position would end beyond that capacity, the reply written to the connection is
  the failure status alone, whatever bytes were received.
\<close>

theorem batch_beyond_capacity_fails:
  assumes "HasActiveMachine f (m_vm srv)"
    and "buf = read_portable c received (m_ipc_buffer srv)"
    and "ParseCommand_init c buf (m_ret_buffer srv) (m_vm srv) = (batch, st0)"
    and "k < batch"
    and "ParseCommand_loop c f buf k 0 st0 = Next stk"
    and "decode c (buf (buf_cnt stk)) = Some d"
    and "MAX_IPC_SIZE c < buf_cnt stk + wire_size d"
  shows "fst (ExecuteTask_connection c f (Some received) srv) = Some [IPC_FAIL c]"
proof -
  have "ParseCommand_body c f buf stk = Error (fetch_head stk)"
    using assms(6,7) by (simp add: body_Error_iff SafetyChecks_def)
  then have "ParseCommand_loop c f buf batch 0 st0 = Error (fetch_head stk)"
    using assms(4,5) by (intro loop_abort [where k = k]) simp_all
  then have "ParseCommand c f buf (m_ret_buffer srv) (m_vm srv) =
      \<lparr>size_ipc = 1, buffer_ipc = MakeFailIPC c (ret_buffer stk), vm_after = vm stk,
       vm_calls = calls stk, request_reads = fetched (fetch_head stk)\<rparr>"
    using assms(1,3) by (simp add: ParseCommand_def)
  then show ?thesis
    using assms(2) by (simp add: ExecuteTask_connection_def Let_def MakeFailIPC_def)
qed

theorem batch_beyond_capacity_fails_witness:
  "HasActiveMachine ram_facade (m_vm server0)
   \<and> fst (ExecuteTask_connection cfg ram_facade (Some flood) server0) = Some [0xFF]"
proof -
  let ?buf = "read_portable cfg flood (m_ipc_buffer server0)"
  let ?st0 = "\<lparr>ret_buffer = m_ret_buffer server0, ret_cnt = 1, buf_cnt = 3,
               vm = m_vm server0, calls = [], fetched = [0] @ [1 ..< 3]\<rparr>"
  have h1: "HasActiveMachine ram_facade (m_vm server0)"
    by (simp add: ram_facade_def server0_def machine0_def)
  have h3: "ParseCommand_init cfg ?buf (m_ret_buffer server0) (m_vm server0) = (819, ?st0)"
    by (rule flood_init)
  obtain stk where h5: "ParseCommand_loop cfg ram_facade ?buf 818 0 ?st0 = Next stk"
    and cnt: "buf_cnt stk = 4093"
    using flood_run [of ram_facade "m_ipc_buffer server0" "m_ret_buffer server0" "m_vm server0"]
    by blast
  have h6: "decode cfg (?buf (buf_cnt stk)) = Some (RD W8)"
    and h7: "MAX_IPC_SIZE cfg < buf_cnt stk + wire_size (RD W8)"
    by (rule flood_abort [OF h5 cnt])+
  have "(818::nat) < 819" by simp
  then have "fst (ExecuteTask_connection cfg ram_facade (Some flood) server0) = Some [IPC_FAIL cfg]"
    using batch_beyond_capacity_fails [OF h1 refl h3 _ h5 h6 h7] by simp
  then show ?thesis
    using h1 by (simp add: cfg_def)
qed

text \<open>
  C3 as stated fails. A first connection sends a complete batch of two Read8 sub-commands
  (13 bytes). A second connection sends 8 bytes: a header that declares two sub-commands and
  one Read8. The second sub-command is parsed from the bytes the first connection left in
  the buffer, and the reply is the success status with two values, not the failure status.
\<close>

theorem short_request_counterexample:
  "fst (ExecuteTask_connection cfg ram_facade (Some [0xFF, 2, 0, 0, 0x10, 0, 0, 0])
          (snd (ExecuteTask_connection cfg ram_facade
                  (Some [0xFF, 2, 0, 0, 0x10, 0, 0, 0, 0, 0x20, 0, 0, 0]) server0)))
   = Some [0, 0x10, 0x20]"
  by (simp add: serve_defs run_defs)

subsection \<open>The address read before the bounds check\<close>

text \<open>
  C4 fails on the flood request, a request of exactly the buffer's 4096 bytes. Iteration 819
  starts with the request cursor at 4093 and reads its address at offsets 4094 to 4097
  before the bounds check rejects the sub-command: offsets 4096 and 4097 lie beyond the
  buffer.
\<close>

theorem address_read_beyond_buffer:
  "MAX_IPC_SIZE cfg = 4096
   \<and> length flood = 4096
   \<and> 4096 \<in> set (request_reads (ParseCommand cfg ram_facade
                      (read_portable cfg flood (\<lambda>_. 0)) (\<lambda>_. 0) machine0))
   \<and> 4097 \<in> set (request_reads (ParseCommand cfg ram_facade
                      (read_portable cfg flood (\<lambda>_. 0)) (\<lambda>_. 0) machine0))
   \<and> size_ipc (ParseCommand cfg ram_facade
                      (read_portable cfg flood (\<lambda>_. 0)) (\<lambda>_. 0) machine0) = 1"
proof -
  let ?buf = "read_portable cfg flood (\<lambda>_. 0)"
  let ?st0 = "\<lparr>ret_buffer = \<lambda>_. 0, ret_cnt = 1, buf_cnt = 3, vm = machine0, calls = [],
               fetched = [0] @ [1 ..< 3]\<rparr>"
  have act: "HasActiveMachine ram_facade machine0"
    by (simp add: ram_facade_def machine0_def)
  have init: "ParseCommand_init cfg ?buf (\<lambda>_. 0) machine0 = (819, ?st0)"
    by (rule flood_init)
  obtain stk where run: "ParseCommand_loop cfg ram_facade ?buf 818 0 ?st0 = Next stk"
    and cnt: "buf_cnt stk = 4093"
    using flood_run [of ram_facade "\<lambda>_. 0" "\<lambda>_. 0" machine0] by blast
  have "ParseCommand_loop cfg ram_facade ?buf 819 0 ?st0 = Error (fetch_head stk)"
    by (rule flood_abort [OF run cnt])
  then have res: "request_reads (ParseCommand cfg ram_facade ?buf (\<lambda>_. 0) machine0)
                  = fetched (fetch_head stk)"
    and sz: "size_ipc (ParseCommand cfg ram_facade ?buf (\<lambda>_. 0) machine0) = 1"
    using act init by (simp_all add: ParseCommand_def)
  have "set [4094 ..< 4098] \<subseteq> set (fetched (fetch_head stk))"
    by (simp add: fetch_head_def cnt)
  moreover have "4096 \<in> set [4094 ..< 4098::nat]" "4097 \<in> set [4094 ..< 4098::nat]"
    by simp_all
  ultimately have "4096 \<in> set (fetched (fetch_head stk))" "4097 \<in> set (fetched (fetch_head stk))"
    by blast+
  then show ?thesis
    using res sz by (simp add: cfg_def flood_def)
qed

subsection \<open>The batch header\<close>

text \<open>
  C5 (as the code has it): the batch header is three bytes, the tag and the 2-byte count,
  with no pad byte. The request of a header with count 2, a Read8 of address 0x10 and a
  Write8 of 5 to address 0x11 returns two bytes: the success status and the byte read.
\<close>

theorem batch_read8_write8:
  assumes "HasActiveMachine f m" and "distinct_opcodes c"
    and "14 \<le> MAX_IPC_SIZE c" and "2 \<le> MAX_IPC_RETURN_SIZE c"
    and "memRead8 f 0x10 m = (v, m')"
    and "r = ParseCommand c f
               (read_portable c
                  ([MsgMultiCommand c] @ le_bytes 2 (2 :: u16)
                   @ [MsgRead8 c] @ le_bytes 4 (0x10 :: u32)
                   @ [MsgWrite8 c] @ le_bytes 4 (0x11 :: u32) @ [0x05]) old)
               ret m"
  shows "size_ipc r = 2
         \<and> write_portable (buffer_ipc r) (size_ipc r) = [IPC_OK c, v]
         \<and> vm_calls r = [CallRead8 0x10 v, CallWrite8 0x11 5]
         \<and> vm_after r = memWrite8 f 0x11 5 m'"
  using assms(1,3,4,5) unfolding assms(6)
  by (simp add: sym_run decode_ops [OF assms(2)])

theorem batch_read8_write8_witness:
  "HasActiveMachine ram_facade machine0 \<and> distinct_opcodes cfg
   \<and> 14 \<le> MAX_IPC_SIZE cfg \<and> 2 \<le> MAX_IPC_RETURN_SIZE cfg
   \<and> memRead8 ram_facade 0x10 machine0 = (0x10, machine0)
   \<and> write_portable
        (buffer_ipc (ParseCommand cfg ram_facade
           (read_portable cfg [0xFF, 2, 0, 0, 0x10, 0, 0, 0, 4, 0x11, 0, 0, 0, 5] (\<lambda>_. 0xFE))
           (\<lambda>_. 0) machine0))
        (size_ipc (ParseCommand cfg ram_facade
           (read_portable cfg [0xFF, 2, 0, 0, 0x10, 0, 0, 0, 4, 0x11, 0, 0, 0, 5] (\<lambda>_. 0xFE))
           (\<lambda>_. 0) machine0))
      = [0, 0x10]"
proof -
  have h1: "HasActiveMachine ram_facade machine0"
    by (simp add: ram_facade_def machine0_def)
  have h2: "distinct_opcodes cfg"
    by (simp add: distinct_opcodes_def opcodes_def cfg_def)
  have h3: "14 \<le> MAX_IPC_SIZE cfg" and h4: "2 \<le> MAX_IPC_RETURN_SIZE cfg"
    by (simp_all add: cfg_def)
  have h5: "memRead8 ram_facade 0x10 machine0 = (0x10, machine0)"
    by (simp add: ram_facade_def machine0_def ram_load_def)
  have req: "[MsgMultiCommand cfg] @ le_bytes 2 (2 :: u16) @ [MsgRead8 cfg]
             @ le_bytes 4 (0x10 :: u32) @ [MsgWrite8 cfg] @ le_bytes 4 (0x11 :: u32) @ [0x05]
             = [0xFF, 2, 0, 0, 0x10, 0, 0, 0, 4, 0x11, 0, 0, 0, 5]"
    by (simp add: cfg_def le_bytes_numeral)
  have ok: "IPC_OK cfg = 0"
    by (simp add: cfg_def)
  show ?thesis
    using h1 h2 h3 h4 h5
      batch_read8_write8 [OF h1 h2 h3 h4 h5 refl, of "\<lambda>_. 0xFE" "\<lambda>_. 0", unfolded req ok,
        THEN conjunct2, THEN conjunct1]
    by simp
qed

text \<open>
  C5 as stated fails: with the pad byte in the request, the pad byte is taken for the opcode
  of the first sub-command. With pad byte 0, the opcode of Read8 in \<open>cfg\<close>, the reply has
  three bytes and neither address 0x10 is read nor address 0x11 written; with pad byte 0xFE,
  no opcode, the reply is the failure status.
\<close>

theorem padded_header_counterexample:
  "fst (ExecuteTask_connection cfg ram_facade
          (Some [0xFF, 2, 0, 0, 0, 0x10, 0, 0, 0, 4, 0x11, 0, 0, 0, 5]) server0)
     = Some [0, 0, 4]
   \<and> vm_calls (ParseCommand cfg ram_facade
          (read_portable cfg [0xFF, 2, 0, 0, 0, 0x10, 0, 0, 0, 4, 0x11, 0, 0, 0, 5] (\<lambda>_. 0xFE))
          (\<lambda>_. 0) machine0)
     = [CallRead8 0x1000 0, CallRead8 0x1104 4]
   \<and> fst (ExecuteTask_connection cfg ram_facade
          (Some [0xFF, 2, 0, 0xFE, 0, 0x10, 0, 0, 0, 4, 0x11, 0, 0, 0, 5]) server0)
     = Some [0xFF]"
  by (simp add: serve_defs run_defs)

subsection \<open>Read-N and Write-N\<close>

text \<open>
  C6: for each width, the case of the switch for the read opcode is the specification's
  Read-N and the case for the write opcode is its Write-N: the same bounds check, the same
  facade call, the same bytes stored in the reply, the same cursor advances.
\<close>

theorem subcommand_cases:
  assumes "distinct_opcodes c"
  shows "(buf (buf_cnt st) = read_op c w \<longrightarrow>
            ParseCommand_body c f buf st = Read_N c f buf w st)
         \<and> (buf (buf_cnt st) = write_op c w \<longrightarrow>
            ParseCommand_body c f buf st = Write_N c f buf w st)"
  using assms by (simp add: body_decode decode_read decode_write)

theorem subcommand_cases_witness:
  "distinct_opcodes cfg
   \<and> request [0, 0x10, 0, 0, 0] (buf_cnt start) = read_op cfg W8
   \<and> ParseCommand_body cfg ram_facade (request [0, 0x10, 0, 0, 0]) start
       = Read_N cfg ram_facade (request [0, 0x10, 0, 0, 0]) W8 start
   \<and> request [1, 0x10, 0, 0, 0] (buf_cnt start) = read_op cfg W16
   \<and> ParseCommand_body cfg ram_facade (request [1, 0x10, 0, 0, 0]) start
       = Read_N cfg ram_facade (request [1, 0x10, 0, 0, 0]) W16 start
   \<and> request [2, 0x10, 0, 0, 0] (buf_cnt start) = read_op cfg W32
   \<and> ParseCommand_body cfg ram_facade (request [2, 0x10, 0, 0, 0]) start
       = Read_N cfg ram_facade (request [2, 0x10, 0, 0, 0]) W32 start
   \<and> cursors (ParseCommand_body cfg ram_facade (request [2, 0x10, 0, 0, 0]) start) = Some (5, 5)
   \<and> request [3, 0x10, 0, 0, 0] (buf_cnt start) = read_op cfg W64
   \<and> ParseCommand_body cfg ram_facade (request [3, 0x10, 0, 0, 0]) start
       = Read_N cfg ram_facade (request [3, 0x10, 0, 0, 0]) W64 start
   \<and> request [4, 0x10, 0, 0, 0, 1] (buf_cnt start) = write_op cfg W8
   \<and> ParseCommand_body cfg ram_facade (request [4, 0x10, 0, 0, 0, 1]) start
       = Write_N cfg ram_facade (request [4, 0x10, 0, 0, 0, 1]) W8 start
   \<and> request [5, 0x10, 0, 0, 0, 1, 2] (buf_cnt start) = write_op cfg W16
   \<and> ParseCommand_body cfg ram_facade (request [5, 0x10, 0, 0, 0, 1, 2]) start
       = Write_N cfg ram_facade (request [5, 0x10, 0, 0, 0, 1, 2]) W16 start
   \<and> cursors (ParseCommand_body cfg ram_facade (request [5, 0x10, 0, 0, 0, 1, 2]) start) = Some (7, 1)
   \<and> request [6, 0x10, 0, 0, 0, 1, 2, 3, 4] (buf_cnt start) = write_op cfg W32
   \<and> ParseCommand_body cfg ram_facade (request [6, 0x10, 0, 0, 0, 1, 2, 3, 4]) start
       = Write_N cfg ram_facade (request [6, 0x10, 0, 0, 0, 1, 2, 3, 4]) W32 start
   \<and> request [7, 0x10, 0, 0, 0, 1, 2, 3, 4, 5, 6, 7, 8] (buf_cnt start) = write_op cfg W64
   \<and> ParseCommand_body cfg ram_facade (request [7, 0x10, 0, 0, 0, 1, 2, 3, 4, 5, 6, 7, 8]) start
       = Write_N cfg ram_facade (request [7, 0x10, 0, 0, 0, 1, 2, 3, 4, 5, 6, 7, 8]) W64 start"
proof -
  have d: "distinct_opcodes cfg"
    by (simp add: distinct_opcodes_def opcodes_def cfg_def)
  have o: "request [0, 0x10, 0, 0, 0] (buf_cnt start) = read_op cfg W8"
    "request [1, 0x10, 0, 0, 0] (buf_cnt start) = read_op cfg W16"
    "request [2, 0x10, 0, 0, 0] (buf_cnt start) = read_op cfg W32"
    "request [3, 0x10, 0, 0, 0] (buf_cnt start) = read_op cfg W64"
    "request [4, 0x10, 0, 0, 0, 1] (buf_cnt start) = write_op cfg W8"
    "request [5, 0x10, 0, 0, 0, 1, 2] (buf_cnt start) = write_op cfg W16"
    "request [6, 0x10, 0, 0, 0, 1, 2, 3, 4] (buf_cnt start) = write_op cfg W32"
    "request [7, 0x10, 0, 0, 0, 1, 2, 3, 4, 5, 6, 7, 8] (buf_cnt start) = write_op cfg W64"
    by (simp_all add: request_def start_def cfg_def)
  note t = subcommand_cases [OF d, of _ start _ ram_facade]
  have c1: "cursors (Read_N cfg ram_facade (request [2, 0x10, 0, 0, 0]) W32 start) = Some (5, 5)"
    by (simp add: Read_N_def start_def cfg_def Let_def)
  have c2: "cursors (Write_N cfg ram_facade (request [5, 0x10, 0, 0, 0, 1, 2]) W16 start) = Some (7, 1)"
    by (simp add: Write_N_def start_def cfg_def Let_def)
  show ?thesis
    using d o c1 c2
      t [of "request [0, 0x10, 0, 0, 0]" W8, THEN conjunct1, rule_format, OF o(1)]
      t [of "request [1, 0x10, 0, 0, 0]" W16, THEN conjunct1, rule_format, OF o(2)]
      t [of "request [2, 0x10, 0, 0, 0]" W32, THEN conjunct1, rule_format, OF o(3)]
      t [of "request [3, 0x10, 0, 0, 0]" W64, THEN conjunct1, rule_format, OF o(4)]
      t [of "request [4, 0x10, 0, 0, 0, 1]" W8, THEN conjunct2, rule_format, OF o(5)]
      t [of "request [5, 0x10, 0, 0, 0, 1, 2]" W16, THEN conjunct2, rule_format, OF o(6)]
      t [of "request [6, 0x10, 0, 0, 0, 1, 2, 3, 4]" W32, THEN conjunct2, rule_format, OF o(7)]
      t [of "request [7, 0x10, 0, 0, 0, 1, 2, 3, 4, 5, 6, 7, 8]" W64, THEN conjunct2, rule_format, OF o(8)]
    by simp
qed

subsection \<open>The layout of the reply\<close>

text \<open>
  C7: when all iterations complete, the reply is \<^verbatim>\<open>ret_cnt\<close> bytes long: the success
  status, then the values of the read operations among the sub-commands of the request, in
  request order, and nothing for its write operations; every iteration has parsed one
  sub-command of the request, and the same bytes are the values the facade returned, in
  the order of its calls. When an iteration fails, the reply is the failure status alone.
\<close>

theorem reply_layout:
  assumes "HasActiveMachine f m"
    and "ParseCommand_init c buf ret m = (batch, st0)"
  shows "case ParseCommand_loop c f buf batch 0 st0 of
           Next st \<Rightarrow>
             size_ipc (ParseCommand c f buf ret m) = int (ret_cnt st)
             \<and> length (request_subcommands c buf) = batch
             \<and> write_portable (buffer_ipc (ParseCommand c f buf ret m))
                 (size_ipc (ParseCommand c f buf ret m))
               = IPC_OK c # read_values f (request_subcommands c buf) m
             \<and> vm_calls (ParseCommand c f buf ret m) = calls st
             \<and> write_portable (buffer_ipc (ParseCommand c f buf ret m))
                 (size_ipc (ParseCommand c f buf ret m))
               = IPC_OK c # concat (map payload (calls st))
         | Error e \<Rightarrow>
             write_portable (buffer_ipc (ParseCommand c f buf ret m))
                 (size_ipc (ParseCommand c f buf ret m)) = [IPC_FAIL c]"
proof (cases "ParseCommand_loop c f buf batch 0 st0")
  case (Error e)
  then show ?thesis
    using assms by (simp add: ParseCommand_def MakeFailIPC_def)
next
  case (Next st)
  note i = init_subcommands [OF assms(2)]
  have "reply_inv st0"
    using assms(2) by (auto simp: ParseCommand_init_def reply_inv_def split: if_splits)
  then have inv: "reply_inv st"
    using Next by (rule loop_reply_inv [rotated])
  then have pos: "1 \<le> ret_cnt st"
    and pl: "map (ret_buffer st) [1 ..< ret_cnt st] = concat (map payload (calls st))"
    by (simp_all add: reply_inv_def)
  have "length (subcommands c buf (batch - 0) (buf_cnt st0)) = batch - 0
        \<and> map (ret_buffer st) [1 ..< ret_cnt st]
          = map (ret_buffer st0) [1 ..< ret_cnt st0]
            @ read_values f (subcommands c buf (batch - 0) (buf_cnt st0)) (vm st0)"
    using Next by (rule loop_subcommands) (simp add: i)
  then have len: "length (request_subcommands c buf) = batch"
    and rv: "map (ret_buffer st) [1 ..< ret_cnt st] = read_values f (request_subcommands c buf) m"
    by (simp_all add: i)
  have "[0 ..< ret_cnt st] = 0 # [1 ..< ret_cnt st]"
    using pos by (simp add: upt_rec)
  then have "map ((ret_buffer st)(0 := IPC_OK c)) [0 ..< ret_cnt st]
             = IPC_OK c # map (ret_buffer st) [1 ..< ret_cnt st]"
    by simp
  then have reply: "write_portable (buffer_ipc (ParseCommand c f buf ret m))
                 (size_ipc (ParseCommand c f buf ret m))
               = IPC_OK c # map (ret_buffer st) [1 ..< ret_cnt st]"
    and sz: "size_ipc (ParseCommand c f buf ret m) = int (ret_cnt st)"
    and cl: "vm_calls (ParseCommand c f buf ret m) = calls st"
    using assms Next by (simp_all add: ParseCommand_def MakeOkIPC_def write_portable_def)
  show ?thesis
    unfolding Next flow.case reply using sz len rv cl pl by simp
qed

theorem reply_layout_witness:
  "HasActiveMachine ram_facade machine0
   \<and> request_subcommands cfg
        (request [0xFF, 5, 0, 2, 0x20, 0, 0, 0, 5, 0x10, 0, 0, 0, 0xAA, 0xBB, 3, 0x10, 0, 0, 0,
                  0, 0x20, 0, 0, 0, 1, 0x30, 0, 0, 0])
      = [ReadCmd W32 0x20, WriteCmd W16 0x10 [0xAA, 0xBB], ReadCmd W64 0x10, ReadCmd W8 0x20,
         ReadCmd W16 0x30]
   \<and> write_portable (buffer_ipc (ParseCommand cfg ram_facade
        (request [0xFF, 5, 0, 2, 0x20, 0, 0, 0, 5, 0x10, 0, 0, 0, 0xAA, 0xBB, 3, 0x10, 0, 0, 0,
                  0, 0x20, 0, 0, 0, 1, 0x30, 0, 0, 0]) (\<lambda>_. 0xAA) machine0))
        (size_ipc (ParseCommand cfg ram_facade
        (request [0xFF, 5, 0, 2, 0x20, 0, 0, 0, 5, 0x10, 0, 0, 0, 0xAA, 0xBB, 3, 0x10, 0, 0, 0,
                  0, 0x20, 0, 0, 0, 1, 0x30, 0, 0, 0]) (\<lambda>_. 0xAA) machine0))
     = [0, 0x20, 0x21, 0x22, 0x23, 0xAA, 0xBB, 0x12, 0x13, 0x14, 0x15, 0x16, 0x17, 0x20,
        0x30, 0x31]"
proof -
  let ?buf = "request [0xFF, 5, 0, 2, 0x20, 0, 0, 0, 5, 0x10, 0, 0, 0, 0xAA, 0xBB, 3, 0x10, 0, 0, 0,
                  0, 0x20, 0, 0, 0, 1, 0x30, 0, 0, 0]"
  let ?st0 = "\<lparr>ret_buffer = \<lambda>_. 0xAA, ret_cnt = 1, buf_cnt = 3, vm = machine0, calls = [],
               fetched = [0] @ [1 ..< 3]\<rparr>"
  define st where "st = (case ParseCommand_loop cfg ram_facade ?buf 5 0 ?st0 of Next s \<Rightarrow> s)"
  have h1: "HasActiveMachine ram_facade machine0"
    by (simp add: ram_facade_def machine0_def)
  have h2: "ParseCommand_init cfg ?buf (\<lambda>_. 0xAA) machine0 = (5, ?st0)"
    by (simp add: ParseCommand_init_def cfg_def request_def FromArray_u16_def upt_rec)
  have run: "ParseCommand_loop cfg ram_facade ?buf 5 0 ?st0 = Next st"
    unfolding st_def by (simp add: run_defs)
  have subs: "request_subcommands cfg ?buf
      = [ReadCmd W32 0x20, WriteCmd W16 0x10 [0xAA, 0xBB], ReadCmd W64 0x10, ReadCmd W8 0x20,
         ReadCmd W16 0x30]"
    by (simp add: request_subcommands_def request_def cfg_def decode_def subcommands_step
        FromArray_u16_def upt_rec)
  have vals: "read_values ram_facade
       [ReadCmd W32 0x20, WriteCmd W16 0x10 [0xAA, 0xBB], ReadCmd W64 0x10, ReadCmd W8 0x20,
        ReadCmd W16 0x30] machine0
      = [0x20, 0x21, 0x22, 0x23, 0xAA, 0xBB, 0x12, 0x13, 0x14, 0x15, 0x16, 0x17, 0x20, 0x30, 0x31]"
    by (simp add: ram_facade_def ram_load_def ram_store_def machine0_def le_bytes_numeral upt_rec)
  have ok: "IPC_OK cfg = 0" by (simp add: cfg_def)
  note r = reply_layout [OF h1 h2, unfolded run flow.case, THEN conjunct2, THEN conjunct2,
      THEN conjunct1, unfolded subs vals ok]
  show ?thesis
    using h1 subs r by simp
qed

subsection \<open>Writing, then reading\<close>

lemma roundtrip_V8:
  assumes "distinct_opcodes c" and "read_after_write f" and "writes_keep_active f"
    and "HasActiveMachine f (m_vm srv)"
    and "21 \<le> MAX_IPC_SIZE c" and "9 \<le> MAX_IPC_RETURN_SIZE c"
  shows "fst (ExecuteTask_connection c f
                (Some ([MsgMultiCommand c] @ le_bytes 2 (2 :: u16)
                       @ write_cmd c a (V8 x) @ read_cmd c a (width_of (V8 x)))) srv)
         = Some (IPC_OK c # val_bytes (V8 x))"
    and "fst (ExecuteTask_connection c f (Some (write_cmd c a (V8 x))) srv) = Some [IPC_OK c]"
    and "fst (ExecuteTask_connection c f (Some (read_cmd c a (width_of (V8 x))))
                (snd (ExecuteTask_connection c f (Some (write_cmd c a (V8 x))) srv)))
         = Some (IPC_OK c # val_bytes (V8 x))"
  using assms(4,5,6)
  by (simp_all add: serve_run decode_ops [OF assms(1)] not_multi [OF assms(1)]
      raw_rules [OF assms(2)] active_rules [OF assms(3,4)] count_two le_word_single
      del: le_word.simps)

lemma roundtrip_V16:
  assumes "distinct_opcodes c" and "read_after_write f" and "writes_keep_active f"
    and "HasActiveMachine f (m_vm srv)"
    and "21 \<le> MAX_IPC_SIZE c" and "9 \<le> MAX_IPC_RETURN_SIZE c"
  shows "fst (ExecuteTask_connection c f
                (Some ([MsgMultiCommand c] @ le_bytes 2 (2 :: u16)
                       @ write_cmd c a (V16 x) @ read_cmd c a (width_of (V16 x)))) srv)
         = Some (IPC_OK c # val_bytes (V16 x))"
    and "fst (ExecuteTask_connection c f (Some (write_cmd c a (V16 x))) srv) = Some [IPC_OK c]"
    and "fst (ExecuteTask_connection c f (Some (read_cmd c a (width_of (V16 x))))
                (snd (ExecuteTask_connection c f (Some (write_cmd c a (V16 x))) srv)))
         = Some (IPC_OK c # val_bytes (V16 x))"
  using assms(4,5,6)
  by (simp_all add: serve_run decode_ops [OF assms(1)] not_multi [OF assms(1)]
      raw_rules [OF assms(2)] active_rules [OF assms(3,4)] count_two le_word_single
      del: le_word.simps)

lemma roundtrip_V32:
  assumes "distinct_opcodes c" and "read_after_write f" and "writes_keep_active f"
    and "HasActiveMachine f (m_vm srv)"
    and "21 \<le> MAX_IPC_SIZE c" and "9 \<le> MAX_IPC_RETURN_SIZE c"
  shows "fst (ExecuteTask_connection c f
                (Some ([MsgMultiCommand c] @ le_bytes 2 (2 :: u16)
                       @ write_cmd c a (V32 x) @ read_cmd c a (width_of (V32 x)))) srv)
         = Some (IPC_OK c # val_bytes (V32 x))"
    and "fst (ExecuteTask_connection c f (Some (write_cmd c a (V32 x))) srv) = Some [IPC_OK c]"
    and "fst (ExecuteTask_connection c f (Some (read_cmd c a (width_of (V32 x))))
                (snd (ExecuteTask_connection c f (Some (write_cmd c a (V32 x))) srv)))
         = Some (IPC_OK c # val_bytes (V32 x))"
  using assms(4,5,6)
  by (simp_all add: serve_run decode_ops [OF assms(1)] not_multi [OF assms(1)]
      raw_rules [OF assms(2)] active_rules [OF assms(3,4)] count_two le_word_single
      del: le_word.simps)

lemma roundtrip_V64:
  assumes "distinct_opcodes c" and "read_after_write f" and "writes_keep_active f"
    and "HasActiveMachine f (m_vm srv)"
    and "21 \<le> MAX_IPC_SIZE c" and "9 \<le> MAX_IPC_RETURN_SIZE c"
  shows "fst (ExecuteTask_connection c f
                (Some ([MsgMultiCommand c] @ le_bytes 2 (2 :: u16)
                       @ write_cmd c a (V64 x) @ read_cmd c a (width_of (V64 x)))) srv)
         = Some (IPC_OK c # val_bytes (V64 x))"
    and "fst (ExecuteTask_connection c f (Some (write_cmd c a (V64 x))) srv) = Some [IPC_OK c]"
    and "fst (ExecuteTask_connection c f (Some (read_cmd c a (width_of (V64 x))))
                (snd (ExecuteTask_connection c f (Some (write_cmd c a (V64 x))) srv)))
         = Some (IPC_OK c # val_bytes (V64 x))"
  using assms(4,5,6)
  by (simp_all add: serve_run decode_ops [OF assms(1)] not_multi [OF assms(1)]
      raw_rules [OF assms(2)] active_rules [OF assms(3,4)] count_two le_word_single
      del: le_word.simps)

text \<open>
  C8: for each of the four widths, every address and every value, over a facade with
  read-after-write semantics and a machine that is and stays active: a batch of a write and
  a read of the same width and address gets the success status followed by the value; and
  when the write and the read come in two connections, one after the other, the first gets
  the success status alone and the second the success status followed by the value.
\<close>

theorem write_then_read_roundtrip:
  assumes "distinct_opcodes c" and "read_after_write f" and "writes_keep_active f"
    and "HasActiveMachine f (m_vm srv)"
    and "21 \<le> MAX_IPC_SIZE c" and "9 \<le> MAX_IPC_RETURN_SIZE c"
  shows "fst (ExecuteTask_connection c f
                (Some ([MsgMultiCommand c] @ le_bytes 2 (2 :: u16)
                       @ write_cmd c a v @ read_cmd c a (width_of v))) srv)
           = Some (IPC_OK c # val_bytes v)
         \<and> fst (ExecuteTask_connection c f (Some (write_cmd c a v)) srv) = Some [IPC_OK c]
         \<and> fst (ExecuteTask_connection c f (Some (read_cmd c a (width_of v)))
                  (snd (ExecuteTask_connection c f (Some (write_cmd c a v)) srv)))
           = Some (IPC_OK c # val_bytes v)"
proof (cases v)
  case (V8 x)
  show ?thesis unfolding V8 by (intro conjI roundtrip_V8 assms)
next
  case (V16 x)
  show ?thesis unfolding V16 by (intro conjI roundtrip_V16 assms)
next
  case (V32 x)
  show ?thesis unfolding V32 by (intro conjI roundtrip_V32 assms)
next
  case (V64 x)
  show ?thesis unfolding V64 by (intro conjI roundtrip_V64 assms)
qed

theorem write_then_read_roundtrip_witness:
  "distinct_opcodes cfg \<and> read_after_write ram_facade \<and> writes_keep_active ram_facade
   \<and> HasActiveMachine ram_facade (m_vm server0)
   \<and> 21 \<le> MAX_IPC_SIZE cfg \<and> 9 \<le> MAX_IPC_RETURN_SIZE cfg
   \<and> fst (ExecuteTask_connection cfg ram_facade
            (Some [0xFF, 2, 0, 6, 0x00, 0x10, 0, 0, 0xEF, 0xBE, 0xAD, 0xDE, 2, 0x00, 0x10, 0, 0])
            server0)
      = Some [0, 0xEF, 0xBE, 0xAD, 0xDE]
   \<and> fst (ExecuteTask_connection cfg ram_facade
            (Some [6, 0x00, 0x10, 0, 0, 0xEF, 0xBE, 0xAD, 0xDE]) server0)
      = Some [0]
   \<and> fst (ExecuteTask_connection cfg ram_facade (Some [2, 0x00, 0x10, 0, 0])
            (snd (ExecuteTask_connection cfg ram_facade
                    (Some [6, 0x00, 0x10, 0, 0, 0xEF, 0xBE, 0xAD, 0xDE]) server0)))
      = Some [0, 0xEF, 0xBE, 0xAD, 0xDE]"
proof -
  have h1: "distinct_opcodes cfg"
    by (simp add: distinct_opcodes_def opcodes_def cfg_def)
  have h4: "HasActiveMachine ram_facade (m_vm server0)"
    by (simp add: ram_facade_def server0_def machine0_def)
  have h5: "21 \<le> MAX_IPC_SIZE cfg" and h6: "9 \<le> MAX_IPC_RETURN_SIZE cfg"
    by (simp_all add: cfg_def)
  have w: "write_cmd cfg 0x1000 (V32 0xDEADBEEF) = [6, 0x00, 0x10, 0, 0, 0xEF, 0xBE, 0xAD, 0xDE]"
    by (simp add: write_cmd_def cfg_def le_bytes_numeral)
  have r: "read_cmd cfg 0x1000 (width_of (V32 0xDEADBEEF)) = [2, 0x00, 0x10, 0, 0]"
    by (simp add: read_cmd_def cfg_def le_bytes_numeral)
  have b: "[MsgMultiCommand cfg] @ le_bytes 2 (2 :: u16) = [0xFF, 2, 0]"
    by (simp add: cfg_def le_bytes_numeral)
  have v: "IPC_OK cfg # val_bytes (V32 0xDEADBEEF) = [0, 0xEF, 0xBE, 0xAD, 0xDE]"
    "[IPC_OK cfg] = [0]"
    by (simp_all add: cfg_def le_bytes_numeral)
  note t = write_then_read_roundtrip [OF h1 ram_read_after_write ram_writes_keep_active h4 h5 h6,
      of "0x1000" "V32 0xDEADBEEF", unfolded append_assoc [symmetric] b, unfolded w r v]
  show ?thesis
    using h1 ram_read_after_write ram_writes_keep_active h4 h5 h6 t by simp
qed

subsection \<open>The cursors\<close>

text \<open>
  C9: in one call of ParseCommand the reply cursor starts at 1; the cursors after \<open>j\<close>
  sub-commands are at most those after \<open>k \<ge> j\<close> sub-commands; after a sub-command that
  succeeded neither cursor exceeds the capacity of its buffer; and a sub-command that would
  take a cursor beyond its capacity ends the whole batch at the error label.
\<close>

theorem cursor_discipline:
  assumes "ParseCommand_init c buf ret m = (batch, st0)"
    and "j \<le> k" and "k \<le> batch"
    and "ParseCommand_loop c f buf k 0 st0 = Next stk"
  shows "ret_cnt st0 = 1
         \<and> (\<exists>stj. ParseCommand_loop c f buf j 0 st0 = Next stj
                  \<and> buf_cnt stj \<le> buf_cnt stk \<and> ret_cnt stj \<le> ret_cnt stk)
         \<and> (0 < k \<longrightarrow> buf_cnt stk \<le> MAX_IPC_SIZE c \<and> ret_cnt stk \<le> MAX_IPC_RETURN_SIZE c)
         \<and> (\<forall>d. k < batch \<and> decode c (buf (buf_cnt stk)) = Some d
                 \<and> (MAX_IPC_SIZE c < buf_cnt stk + wire_size d
                    \<or> MAX_IPC_RETURN_SIZE c < ret_cnt stk + reply_size d)
               \<longrightarrow> ParseCommand_loop c f buf batch 0 st0 = Error (fetch_head stk))"
proof (intro conjI allI impI)
  show "ret_cnt st0 = 1"
    using assms(1) by (auto simp: ParseCommand_init_def split: if_splits)
next
  obtain stj where stj: "ParseCommand_loop c f buf j 0 st0 = Next stj"
    using loop_prefix_exists [OF _ assms(2,4)] by auto
  then have "ParseCommand_loop c f buf k j stj = Next stk"
    using loop_prefix [OF _ assms(2) stj] assms(4) by simp
  then have "buf_cnt stj \<le> buf_cnt stk \<and> ret_cnt stj \<le> ret_cnt stk"
    by (rule loop_mono)
  then show "\<exists>stj. ParseCommand_loop c f buf j 0 st0 = Next stj
                  \<and> buf_cnt stj \<le> buf_cnt stk \<and> ret_cnt stj \<le> ret_cnt stk"
    using stj by blast
next
  assume "0 < k"
  then show "buf_cnt stk \<le> MAX_IPC_SIZE c" "ret_cnt stk \<le> MAX_IPC_RETURN_SIZE c"
    using loop_within_capacity [OF assms(4)] by simp_all
next
  fix d
  assume a: "k < batch \<and> decode c (buf (buf_cnt stk)) = Some d
             \<and> (MAX_IPC_SIZE c < buf_cnt stk + wire_size d
                \<or> MAX_IPC_RETURN_SIZE c < ret_cnt stk + reply_size d)"
  then have "ParseCommand_body c f buf stk = Error (fetch_head stk)"
    by (auto simp: body_Error_iff SafetyChecks_def)
  then show "ParseCommand_loop c f buf batch 0 st0 = Error (fetch_head stk)"
    using a assms(4) by (intro loop_abort [where k = k]) simp_all
qed

theorem cursor_discipline_witness:
  "(\<exists>stj stk.
      ParseCommand_loop cfg ram_facade
        (request [0xFF, 3, 0, 1, 0x10, 0, 0, 0, 4, 0x11, 0, 0, 0, 5, 0, 0x20, 0, 0, 0]) 1 0
        \<lparr>ret_buffer = \<lambda>_. 0, ret_cnt = 1, buf_cnt = 3, vm = machine0, calls = [],
         fetched = [0] @ [1 ..< 3]\<rparr> = Next stj
      \<and> ParseCommand_loop cfg ram_facade
        (request [0xFF, 3, 0, 1, 0x10, 0, 0, 0, 4, 0x11, 0, 0, 0, 5, 0, 0x20, 0, 0, 0]) 3 0
        \<lparr>ret_buffer = \<lambda>_. 0, ret_cnt = 1, buf_cnt = 3, vm = machine0, calls = [],
         fetched = [0] @ [1 ..< 3]\<rparr> = Next stk
      \<and> buf_cnt stj \<le> buf_cnt stk \<and> ret_cnt stj \<le> ret_cnt stk
      \<and> buf_cnt stk \<le> MAX_IPC_SIZE cfg \<and> ret_cnt stk \<le> MAX_IPC_RETURN_SIZE cfg)
   \<and> (\<exists>stk.
      ParseCommand_loop cfg ram_facade (read_portable cfg flood (\<lambda>_. 0)) 818 0
        \<lparr>ret_buffer = \<lambda>_. 0, ret_cnt = 1, buf_cnt = 3, vm = machine0, calls = [],
         fetched = [0] @ [1 ..< 3]\<rparr> = Next stk
      \<and> decode cfg (read_portable cfg flood (\<lambda>_. 0) (buf_cnt stk)) = Some (RD W8)
      \<and> MAX_IPC_SIZE cfg < buf_cnt stk + wire_size (RD W8)
      \<and> ParseCommand_loop cfg ram_facade (read_portable cfg flood (\<lambda>_. 0)) 819 0
        \<lparr>ret_buffer = \<lambda>_. 0, ret_cnt = 1, buf_cnt = 3, vm = machine0, calls = [],
         fetched = [0] @ [1 ..< 3]\<rparr> = Error (fetch_head stk))"
proof (intro conjI)
  let ?buf = "request [0xFF, 3, 0, 1, 0x10, 0, 0, 0, 4, 0x11, 0, 0, 0, 5, 0, 0x20, 0, 0, 0]"
  let ?st0 = "\<lparr>ret_buffer = \<lambda>_. 0, ret_cnt = 1, buf_cnt = 3, vm = machine0, calls = [],
               fetched = [0] @ [1 ..< 3]\<rparr>"
  define stk where "stk = (case ParseCommand_loop cfg ram_facade ?buf 3 0 ?st0 of Next s \<Rightarrow> s)"
  have h1: "ParseCommand_init cfg ?buf (\<lambda>_. 0) machine0 = (3, ?st0)"
    by (simp add: ParseCommand_init_def cfg_def request_def FromArray_u16_def upt_rec)
  have h4: "ParseCommand_loop cfg ram_facade ?buf 3 0 ?st0 = Next stk"
    unfolding stk_def by (simp add: run_defs)
  have "(1::nat) \<le> 3" "(3::nat) \<le> 3" "(0::nat) < 3" by simp_all
  then show "\<exists>stj stk. ParseCommand_loop cfg ram_facade ?buf 1 0 ?st0 = Next stj
      \<and> ParseCommand_loop cfg ram_facade ?buf 3 0 ?st0 = Next stk
      \<and> buf_cnt stj \<le> buf_cnt stk \<and> ret_cnt stj \<le> ret_cnt stk
      \<and> buf_cnt stk \<le> MAX_IPC_SIZE cfg \<and> ret_cnt stk \<le> MAX_IPC_RETURN_SIZE cfg"
    using h4 cursor_discipline [OF h1 _ _ h4, of 1] by auto
next
  let ?buf = "read_portable cfg flood (\<lambda>_. 0)"
  let ?st0 = "\<lparr>ret_buffer = \<lambda>_. 0, ret_cnt = 1, buf_cnt = 3, vm = machine0, calls = [],
               fetched = [0] @ [1 ..< 3]\<rparr>"
  obtain stk where h4: "ParseCommand_loop cfg ram_facade ?buf 818 0 ?st0 = Next stk"
    and cnt: "buf_cnt stk = 4093"
    using flood_run [of ram_facade "\<lambda>_. 0" "\<lambda>_. 0" machine0] by blast
  have h1: "ParseCommand_init cfg ?buf (\<lambda>_. 0) machine0 = (819, ?st0)"
    by (rule flood_init)
  have d: "decode cfg (?buf (buf_cnt stk)) = Some (RD W8)"
    and m: "MAX_IPC_SIZE cfg < buf_cnt stk + wire_size (RD W8)"
    by (rule flood_abort [OF h4 cnt])+
  have "ParseCommand_loop cfg ram_facade ?buf 819 0 ?st0 = Error (fetch_head stk)"
    using cursor_discipline [OF h1 _ _ h4, of 0] d m by auto
  then show "\<exists>stk. ParseCommand_loop cfg ram_facade ?buf 818 0 ?st0 = Next stk
      \<and> decode cfg (?buf (buf_cnt stk)) = Some (RD W8)
      \<and> MAX_IPC_SIZE cfg < buf_cnt stk + wire_size (RD W8)
      \<and> ParseCommand_loop cfg ram_facade ?buf 819 0 ?st0 = Error (fetch_head stk)"
    using h4 d m by blast
qed

subsection \<open>The empty batch\<close>

text \<open>
  C10: with an active machine, a request that starts with the batch tag and carries count 0
  gets the one-byte success reply, and the facade is not called.
\<close>

theorem empty_batch_succeeds:
  assumes "HasActiveMachine f m" and "buf 0 = MsgMultiCommand c" and "FromArray_u16 buf 0 1 = 0"
  shows "ParseCommand c f buf ret m =
           \<lparr>size_ipc = 1, buffer_ipc = ret(0 := IPC_OK c), vm_after = m, vm_calls = [],
            request_reads = [0, 1, 2]\<rparr>
         \<and> write_portable (buffer_ipc (ParseCommand c f buf ret m))
              (size_ipc (ParseCommand c f buf ret m)) = [IPC_OK c]"
  using assms by (simp add: ParseCommand_def ParseCommand_init_def loop_done MakeOkIPC_def upt_rec)

theorem empty_batch_succeeds_witness:
  "HasActiveMachine ram_facade machine0 \<and> request [0xFF, 0, 0] 0 = MsgMultiCommand cfg
   \<and> FromArray_u16 (request [0xFF, 0, 0]) 0 1 = 0
   \<and> vm_calls (ParseCommand cfg ram_facade (request [0xFF, 0, 0]) (\<lambda>_. 0xAA) machine0) = []
   \<and> write_portable (buffer_ipc (ParseCommand cfg ram_facade (request [0xFF, 0, 0]) (\<lambda>_. 0xAA) machine0))
              (size_ipc (ParseCommand cfg ram_facade (request [0xFF, 0, 0]) (\<lambda>_. 0xAA) machine0)) = [0]"
proof -
  have h1: "HasActiveMachine ram_facade machine0"
    by (simp add: ram_facade_def machine0_def)
  have h2: "request [0xFF, 0, 0] 0 = MsgMultiCommand cfg"
    by (simp add: request_def cfg_def)
  have h3: "FromArray_u16 (request [0xFF, 0, 0]) 0 1 = 0"
    by (simp add: FromArray_u16_def request_def upt_rec)
  have "IPC_OK cfg = 0" by (simp add: cfg_def)
  then show ?thesis
    using h1 h2 h3 empty_batch_succeeds [OF h1 h2 h3, of "\<lambda>_. 0xAA"] by simp
qed

end
